theory Spec2Isabelle
  imports Complex_Main "HOL-Library.AList" "HOL-Library.Sublist"
begin

section \<open>Data model of the RSI scanner (src/App.tsx)\<close>

text \<open>
  The component \<^verbatim>\<open>App\<close> keeps its state in React hooks. The parts modelled here are
  the snapshot \<^verbatim>\<open>symbolsData\<close>, the flag \<^verbatim>\<open>loading\<close>, the per-symbol status map
  \<^verbatim>\<open>lastAlertedRsiStatus\<close>, the toast queue \<^verbatim>\<open>toasts\<close> and the initial values read
  from \<^verbatim>\<open>localStorage\<close>.

  A JavaScript object used as a dictionary (\<^verbatim>\<open>Record<string, T>\<close>) is an association
  list with pairwise distinct keys, in insertion order: \<^verbatim>\<open>o[k] = v\<close> is
  \<^const>\<open>AList.update\<close> (an existing key keeps its place, a new key goes last),
  \<^verbatim>\<open>o[k]\<close> is \<^const>\<open>map_of\<close> (\<open>None\<close> for \<^verbatim>\<open>undefined\<close>) and
  \<^verbatim>\<open>Object.keys(o)\<close> is \<open>map fst\<close>. (JavaScript lists keys that are written as
  integers first; trading symbols are not.) A JavaScript number that holds an RSI value
  is a \<^typ>\<open>real\<close>, so \<^verbatim>\<open>NaN\<close> is left out; one that holds \<^verbatim>\<open>Date.now()\<close> is an
  \<^typ>\<open>int\<close> (milliseconds). A \<^verbatim>\<open>Timeframe\<close> and a symbol are strings.
\<close>

datatype AlertStatus = Overbought | Oversold | Neutral

text \<open>
  \<^verbatim>\<open>SymbolData\<close> and its RSI points are declared in \<^verbatim>\<open>./types\<close>, which is not among the
  sources; the fields are the ones \<^verbatim>\<open>App\<close> reads: \<^verbatim>\<open>symbolData.rsi\<close>, an array, and
  \<^verbatim>\<open>.value\<close> of its elements.
\<close>

record RsiPoint =
  rsi_time :: int
  rsi_value :: real

record SymbolData =
  rsi :: "RsiPoint list"

text \<open>
  \<^verbatim>\<open>Omit<Toast, 'id'>\<close>, the argument of \<^verbatim>\<open>addToast\<close>, and \<^verbatim>\<open>Toast\<close> itself, which
  adds the field \<^verbatim>\<open>id\<close>.
\<close>

record ToastInput =
  toast_symbol :: string
  toast_timeframe :: string
  toast_rsi :: real
  toast_type :: AlertStatus

record Toast = ToastInput +
  toast_id :: int

type_synonym Snapshot = "(string \<times> SymbolData) list"
type_synonym StatusMap = "(string \<times> AlertStatus) list"

section \<open>Toast queue\<close>

text \<open>
  \<^verbatim>\<open>setToasts(prev => [...prev, { ...toast, id: Date.now() }])\<close>: the first argument is
  what \<^verbatim>\<open>Date.now()\<close> returns when the update runs.
\<close>

definition addToast :: "int \<Rightarrow> ToastInput \<Rightarrow> Toast list \<Rightarrow> Toast list" where
  "addToast now toast prev =
     prev @ [\<lparr>toast_symbol = toast_symbol toast, toast_timeframe = toast_timeframe toast,
              toast_rsi = toast_rsi toast, toast_type = toast_type toast, toast_id = now\<rparr>]"

text \<open>\<^verbatim>\<open>setToasts(prev => prev.filter(toast => toast.id !== id))\<close>\<close>

definition removeToast :: "int \<Rightarrow> Toast list \<Rightarrow> Toast list" where
  "removeToast i prev = filter (\<lambda>toast. toast_id toast \<noteq> i) prev"

section \<open>Alert effect\<close>

definition ALLOWED_TIMEFRAMES_FOR_ALERTS :: "string list" where
  "ALLOWED_TIMEFRAMES_FOR_ALERTS =
     [''15m'', ''30m'', ''1h'', ''2h'', ''4h'', ''8h'', ''1d'', ''3d'', ''1w'']"

definition overboughtThreshold :: real where
  "overboughtThreshold = 70"

definition oversoldThreshold :: real where
  "oversoldThreshold = 30"

text \<open>
  The body of \<^verbatim>\<open>Object.keys(symbolsData).forEach(symbol => ...)\<close>. It reads the
  snapshot, the timeframe and the status map of the render; it appends to the toasts it
  has asked for (the calls of \<^verbatim>\<open>addToast\<close>, in order) and writes \<^verbatim>\<open>newAlertStatus\<close>.
\<close>

definition alert_symbol ::
  "Snapshot \<Rightarrow> string \<Rightarrow> StatusMap \<Rightarrow> string \<Rightarrow>
   ToastInput list \<times> StatusMap \<Rightarrow> ToastInput list \<times> StatusMap" where
  "alert_symbol symbolsData timeframe lastAlertedRsiStatus symbol acc =
     (case acc of (added, newAlertStatus) \<Rightarrow>
       (case map_of symbolsData symbol of
          None \<Rightarrow> (added, newAlertStatus)
        | Some symbolData \<Rightarrow>
            if length (rsi symbolData) = 0 then (added, newAlertStatus)
            else
              let lastRsi = rsi_value (rsi symbolData ! (length (rsi symbolData) - 1));
                  previousStatus =
                    (case map_of lastAlertedRsiStatus symbol of
                       None \<Rightarrow> Neutral | Some s \<Rightarrow> s)
              in
                if lastRsi \<ge> overboughtThreshold then
                  ((if previousStatus \<noteq> Overbought
                    then added @ [\<lparr>toast_symbol = symbol, toast_timeframe = timeframe,
                                    toast_rsi = lastRsi, toast_type = Overbought\<rparr>]
                    else added),
                   AList.update symbol Overbought newAlertStatus)
                else if lastRsi \<le> oversoldThreshold then
                  ((if previousStatus \<noteq> Oversold
                    then added @ [\<lparr>toast_symbol = symbol, toast_timeframe = timeframe,
                                    toast_rsi = lastRsi, toast_type = Oversold\<rparr>]
                    else added),
                   AList.update symbol Oversold newAlertStatus)
                else (added, AList.update symbol Neutral newAlertStatus)))"

text \<open>
  The effect itself: the toasts it asks for and the status map after it. The status map
  is written only when \<^verbatim>\<open>JSON.stringify\<close> tells the new one from the old one; on these
  objects (string keys in insertion order, three possible values) that is equality of
  the association lists.
\<close>

definition alert_effect ::
  "bool \<Rightarrow> string \<Rightarrow> Snapshot \<Rightarrow> StatusMap \<Rightarrow> ToastInput list \<times> StatusMap" where
  "alert_effect areAlertsEnabled timeframe symbolsData lastAlertedRsiStatus =
     (if \<not> areAlertsEnabled \<or> timeframe \<notin> set ALLOWED_TIMEFRAMES_FOR_ALERTS
         \<or> length (map fst symbolsData) = 0
      then ([], lastAlertedRsiStatus)
      else
        (case fold (alert_symbol symbolsData timeframe lastAlertedRsiStatus)
                (map fst symbolsData) ([], lastAlertedRsiStatus) of
           (added, newAlertStatus) \<Rightarrow>
             (added,
              if newAlertStatus \<noteq> lastAlertedRsiStatus then newAlertStatus
              else lastAlertedRsiStatus)))"

text \<open>
  React runs the effect after every render in which one of its dependencies changed. A
  run is given by the values of \<^verbatim>\<open>areAlertsEnabled\<close>, \<^verbatim>\<open>timeframe\<close> and
  \<^verbatim>\<open>symbolsData\<close> at that render; the status map is the one the run before it left.
  \<open>run_effects\<close> lists the toasts each run asks for, \<open>status_after\<close> is the status map
  after the runs.
\<close>

fun run_effects :: "(bool \<times> string \<times> Snapshot) list \<Rightarrow> StatusMap \<Rightarrow> ToastInput list list" where
  "run_effects [] st = []"
| "run_effects ((enabled, tf, snap) # ticks) st =
     fst (alert_effect enabled tf snap st) # run_effects ticks (snd (alert_effect enabled tf snap st))"

fun status_after :: "(bool \<times> string \<times> Snapshot) list \<Rightarrow> StatusMap \<Rightarrow> StatusMap" where
  "status_after [] st = st"
| "status_after ((enabled, tf, snap) # ticks) st =
     status_after ticks (snd (alert_effect enabled tf snap st))"

text \<open>
  The transition rule in the words of the specification: the status of an RSI value.
  \<open>toasts_for\<close> picks the toasts of one symbol.
\<close>

definition rsi_status :: "real \<Rightarrow> AlertStatus" where
  "rsi_status v = (if v \<ge> 70 then Overbought else if v \<le> 30 then Oversold else Neutral)"

definition toasts_for :: "string \<Rightarrow> ToastInput list \<Rightarrow> ToastInput list" where
  "toasts_for symbol ts = filter (\<lambda>t. toast_symbol t = symbol) ts"

section \<open>Refresh cycle\<close>

text \<open>
  \<^verbatim>\<open>fetchRsiForSymbol\<close> lives in \<^verbatim>\<open>./services/binanceService\<close>, which is not among the
  sources: it is a parameter, the outcome of the request for a symbol and a timeframe
  during the cycle, \<open>Inl\<close> for a rejected promise and \<open>Inr\<close> for a fulfilled one,
  whatever data it carries.
\<close>

datatype FetchError = NetworkError | ParseError

text \<open>
  \<^verbatim>\<open>await Promise.all(promises)\<close>: the values in the order of the promises when every
  promise is fulfilled, a rejection as soon as one is rejected.
\<close>

fun Promise_all :: "('e + 'a) list \<Rightarrow> 'e + 'a list" where
  "Promise_all [] = Inr []"
| "Promise_all (Inl e # ps) = Inl e"
| "Promise_all (Inr v # ps) =
     (case Promise_all ps of Inl e \<Rightarrow> Inl e | Inr vs \<Rightarrow> Inr (v # vs))"

text \<open>
  \<^verbatim>\<open>results.forEach((data, index) => { newData[userSymbols[index]] = data; })\<close> on
  \<^verbatim>\<open>newData = {}\<close>: \<^verbatim>\<open>results\<close> has one value per symbol, so the index pairs the two
  lists.
\<close>

definition newData_of :: "string list \<Rightarrow> SymbolData list \<Rightarrow> Snapshot" where
  "newData_of userSymbols results =
     fold (\<lambda>(symbol, data) newData. AList.update symbol data newData) (zip userSymbols results) []"

text \<open>
  A cycle that waits for its fetches is a continuation held by the event loop; it
  remembers the \<^verbatim>\<open>userSymbols\<close> of its closure and its \<^verbatim>\<open>selectedTimeframe\<close>.
\<close>

record Cycle =
  cycle_symbols :: "string list"
  cycle_timeframe :: string

record App =
  symbolsData :: Snapshot
  loading :: bool
  in_flight :: "Cycle list"

text \<open>
  \<^verbatim>\<open>fetchData\<close> when nothing else runs between the call and the settling of its
  fetches. \<^verbatim>\<open>console.error\<close> in the \<^verbatim>\<open>catch\<close> writes nothing to the state.
\<close>

definition fetchData ::
  "(string \<Rightarrow> string \<Rightarrow> FetchError + SymbolData) \<Rightarrow> string list \<Rightarrow> string \<Rightarrow> App \<Rightarrow> App" where
  "fetchData fetchRsiForSymbol userSymbols selectedTimeframe app =
     (if length userSymbols = 0 then app\<lparr>symbolsData := [], loading := False\<rparr>
      else
        (case Promise_all (map (\<lambda>symbol. fetchRsiForSymbol symbol selectedTimeframe) userSymbols) of
           Inr results \<Rightarrow>
             (app\<lparr>loading := True\<rparr>)\<lparr>symbolsData := newData_of userSymbols results, loading := False\<rparr>
         | Inl err \<Rightarrow> (app\<lparr>loading := True\<rparr>)\<lparr>loading := False\<rparr>))"

text \<open>
  The same function as the event loop runs it. \<open>fetchData_call\<close> is the part up to the
  \<^verbatim>\<open>await\<close>: it runs when the interval fires or the effect re-runs, and leaves a
  continuation. \<open>fetchData_settle\<close> is the part after the \<^verbatim>\<open>await\<close>, for the
  continuation at position \<open>k\<close>.
\<close>

definition fetchData_call :: "string list \<Rightarrow> string \<Rightarrow> App \<Rightarrow> App" where
  "fetchData_call userSymbols selectedTimeframe app =
     (if length userSymbols = 0 then app\<lparr>symbolsData := [], loading := False\<rparr>
      else app\<lparr>loading := True,
               in_flight := in_flight app @
                 [\<lparr>cycle_symbols = userSymbols, cycle_timeframe = selectedTimeframe\<rparr>]\<rparr>)"

definition fetchData_settle ::
  "(string \<Rightarrow> string \<Rightarrow> FetchError + SymbolData) \<Rightarrow> nat \<Rightarrow> App \<Rightarrow> App" where
  "fetchData_settle fetchRsiForSymbol k app =
     (if k < length (in_flight app) then
        (let userSymbols = cycle_symbols (in_flight app ! k);
             selectedTimeframe = cycle_timeframe (in_flight app ! k);
             rest = take k (in_flight app) @ drop (Suc k) (in_flight app)
         in case Promise_all (map (\<lambda>symbol. fetchRsiForSymbol symbol selectedTimeframe) userSymbols) of
              Inr results \<Rightarrow>
                app\<lparr>symbolsData := newData_of userSymbols results, loading := False, in_flight := rest\<rparr>
            | Inl err \<Rightarrow> app\<lparr>loading := False, in_flight := rest\<rparr>)
      else app)"

section \<open>Initial values from localStorage\<close>

text \<open>
  \<^verbatim>\<open>localStorage.getItem\<close> is a lookup in a map from keys to strings (\<open>None\<close> for
  \<^verbatim>\<open>null\<close>). \<^verbatim>\<open>JSON.parse\<close> is a parameter, \<open>None\<close> when it throws; its value is
  taken at the type the state is declared with. \<^verbatim>\<open>DEFAULT_SYMBOLS\<close> comes from
  \<^verbatim>\<open>./constants\<close>, which is not among the sources, and is a parameter too. The
  condition \<^verbatim>\<open>saved ? ... : ...\<close> is false for \<^verbatim>\<open>null\<close> and for the empty string.
\<close>

definition allSymbols_init ::
  "(string \<Rightarrow> string list option) \<Rightarrow> string list \<Rightarrow> (string \<rightharpoonup> string) \<Rightarrow> string list" where
  "allSymbols_init JSON_parse DEFAULT_SYMBOLS localStorage =
     (case localStorage ''crypto-all-symbols'' of
        None \<Rightarrow> DEFAULT_SYMBOLS
      | Some saved \<Rightarrow>
          if saved = [] then DEFAULT_SYMBOLS
          else (case JSON_parse saved of None \<Rightarrow> DEFAULT_SYMBOLS | Some v \<Rightarrow> v))"

definition userSymbols_init ::
  "(string \<Rightarrow> string list option) \<Rightarrow> string list \<Rightarrow> (string \<rightharpoonup> string) \<Rightarrow> string list" where
  "userSymbols_init JSON_parse allSymbols localStorage =
     (case localStorage ''crypto-user-symbols'' of
        None \<Rightarrow> allSymbols
      | Some saved \<Rightarrow>
          if saved = [] then allSymbols
          else (case JSON_parse saved of None \<Rightarrow> allSymbols | Some v \<Rightarrow> v))"

definition favorites_init ::
  "(string \<Rightarrow> string list option) \<Rightarrow> (string \<rightharpoonup> string) \<Rightarrow> string list" where
  "favorites_init JSON_parse localStorage =
     (case localStorage ''crypto-favorites'' of
        None \<Rightarrow> []
      | Some saved \<Rightarrow>
          if saved = [] then []
          else (case JSON_parse saved of None \<Rightarrow> [] | Some v \<Rightarrow> v))"

definition areAlertsEnabled_init ::
  "(string \<Rightarrow> bool option) \<Rightarrow> (string \<rightharpoonup> string) \<Rightarrow> bool" where
  "areAlertsEnabled_init JSON_parse localStorage =
     (case localStorage ''crypto-alerts-enabled'' of
        None \<Rightarrow> False
      | Some saved \<Rightarrow>
          if saved = [] then False
          else (case JSON_parse saved of None \<Rightarrow> False | Some v \<Rightarrow> v))"

section \<open>The effect, one visit at a time\<close>

text \<open>
  What one visit of the loop adds to the toasts and to the status map, apart; the
  lemma \<open>alert_symbol_visit\<close> below shows that \<open>alert_symbol\<close> does exactly this.
  \<open>latest_rsi\<close> is the value of the last point of a series, \<open>previous_status\<close>
  the status recorded for a symbol (\<^verbatim>\<open>lastAlertedRsiStatus[symbol] || 'neutral'\<close>).
\<close>

definition latest_rsi :: "SymbolData \<Rightarrow> real" where
  "latest_rsi d = rsi_value (last (rsi d))"

definition previous_status :: "StatusMap \<Rightarrow> string \<Rightarrow> AlertStatus" where
  "previous_status st symbol = (case map_of st symbol of None \<Rightarrow> Neutral | Some s \<Rightarrow> s)"

definition visit_toasts :: "Snapshot \<Rightarrow> string \<Rightarrow> StatusMap \<Rightarrow> string \<Rightarrow> ToastInput list" where
  "visit_toasts snap tf st k =
     (case map_of snap k of
        None \<Rightarrow> []
      | Some d \<Rightarrow>
          if rsi d = [] then []
          else if rsi_status (latest_rsi d) \<noteq> previous_status st k \<and> rsi_status (latest_rsi d) \<noteq> Neutral
          then [\<lparr>toast_symbol = k, toast_timeframe = tf, toast_rsi = latest_rsi d,
                  toast_type = rsi_status (latest_rsi d)\<rparr>]
          else [])"

definition visit_status :: "Snapshot \<Rightarrow> string \<Rightarrow> StatusMap \<Rightarrow> StatusMap" where
  "visit_status snap k ns =
     (case map_of snap k of
        None \<Rightarrow> ns
      | Some d \<Rightarrow> if rsi d = [] then ns else AList.update k (rsi_status (latest_rsi d)) ns)"

section \<open>Example data\<close>

text \<open>Concrete values for the examples below.\<close>

definition example_toast :: "string \<Rightarrow> int \<Rightarrow> Toast" where
  "example_toast s i = \<lparr>toast_symbol = s, toast_timeframe = ''15m'', toast_rsi = 75,
                         toast_type = Overbought, toast_id = i\<rparr>"

definition example_input :: "string \<Rightarrow> ToastInput" where
  "example_input s = \<lparr>toast_symbol = s, toast_timeframe = ''15m'', toast_rsi = 75,
                        toast_type = Overbought\<rparr>"

definition series :: "real list \<Rightarrow> SymbolData" where
  "series vs = \<lparr>rsi = map (\<lambda>v. \<lparr>rsi_time = 0, rsi_value = v\<rparr>) vs\<rparr>"

definition example_app :: App where
  "example_app = \<lparr>symbolsData = [(''BTCUSDT'', series [50]), (''ETHUSDT'', series [40])],
                   loading = False, in_flight = []\<rparr>"

definition eth_down :: "string \<Rightarrow> string \<Rightarrow> FetchError + SymbolData" where
  "eth_down symbol tf = (if symbol = ''ETHUSDT'' then Inl NetworkError else Inr (series [75]))"

definition eth_empty :: "string \<Rightarrow> string \<Rightarrow> FetchError + SymbolData" where
  "eth_empty symbol tf = (if symbol = ''ETHUSDT'' then Inr (series []) else Inr (series [75]))"

definition all_up :: "string \<Rightarrow> string \<Rightarrow> FetchError + SymbolData" where
  "all_up symbol tf = Inr (series [75])"

definition json_of_example :: "string \<Rightarrow> string list option" where
  "json_of_example s = (if s = ''[\"BTCUSDT\"]'' then Some [''BTCUSDT''] else None)"

definition bool_of_example :: "string \<Rightarrow> bool option" where
  "bool_of_example s = (if s = ''true'' then Some True else if s = ''false'' then Some False else None)"

definition five_ticks :: "(bool \<times> string \<times> Snapshot) list" where
  "five_ticks = map (\<lambda>v. (True, ''15m'', [(''BTCUSDT'', series [v]), (''ETHUSDT'', series [45])]))
     [50, 75, 80, 50, 72]"

section \<open>Properties of the toast queue\<close>

lemma removeToast_absent: "i \<notin> toast_id ` set q \<Longrightarrow> removeToast i q = q"
  by (induction q) (auto simp: removeToast_def)

lemma removeToast_append: "removeToast i (xs @ ys) = removeToast i xs @ removeToast i ys"
  by (simp add: removeToast_def)

lemma removeToast_split:
  "toast_id t = i \<Longrightarrow> i \<notin> toast_id ` set xs \<Longrightarrow> i \<notin> toast_id ` set ys \<Longrightarrow>
   removeToast i (xs @ t # ys) = xs @ ys"
proof -
  assume t: "toast_id t = i" and xs: "i \<notin> toast_id ` set xs" and ys: "i \<notin> toast_id ` set ys"
  have "removeToast i (t # ys) = removeToast i ys"
    using t by (simp add: removeToast_def)
  then show ?thesis
    using removeToast_absent [OF xs] removeToast_absent [OF ys]
    by (simp add: removeToast_append)
qed

text \<open>
  Claim C7. For every queue and every id, \<^verbatim>\<open>removeToast\<close> removes the notification with
  that id and keeps the remaining ones in their insertion order; when no notification
  has the id, the queue is unchanged. In full: what is left is a subsequence of the
  queue, its elements are the toasts with another id, a queue without the id is returned
  as it is, a queue \<open>xs @ t # ys\<close> in which only \<open>t\<close> has the id becomes \<open>xs @ ys\<close>,
  and dismissing twice is dismissing once.
\<close>

theorem removeToast_by_id:
  "subseq (removeToast i q) q
   \<and> set (removeToast i q) = {t \<in> set q. toast_id t \<noteq> i}
   \<and> (i \<notin> toast_id ` set q \<longrightarrow> removeToast i q = q)
   \<and> (\<forall>xs t ys. q = xs @ t # ys \<and> toast_id t = i \<and> i \<notin> toast_id ` set xs
          \<and> i \<notin> toast_id ` set ys \<longrightarrow> removeToast i q = xs @ ys)
   \<and> removeToast i (removeToast i q) = removeToast i q"
proof (intro conjI allI impI)
  show "subseq (removeToast i q) q"
    by (simp add: removeToast_def)
  show "set (removeToast i q) = {t \<in> set q. toast_id t \<noteq> i}"
    by (simp add: removeToast_def)
  show "removeToast i q = q" if "i \<notin> toast_id ` set q"
    using that by (rule removeToast_absent)
  show "removeToast i q = xs @ ys"
    if "q = xs @ t # ys \<and> toast_id t = i \<and> i \<notin> toast_id ` set xs \<and> i \<notin> toast_id ` set ys"
    for xs t ys
    using that by (simp add: removeToast_split)
  show "removeToast i (removeToast i q) = removeToast i q"
    by (simp add: removeToast_def)
qed

text \<open>
  The theorem at a queue of three toasts: dismissing id 2 leaves the first and the third
  in order, dismissing id 7, which no toast has, leaves the queue as it is.
\<close>

theorem removeToast_by_id_witness:
  "removeToast 2 [example_toast ''A'' 1, example_toast ''B'' 2, example_toast ''C'' 3]
     = [example_toast ''A'' 1, example_toast ''C'' 3]
   \<and> removeToast 7 [example_toast ''A'' 1, example_toast ''B'' 2, example_toast ''C'' 3]
     = [example_toast ''A'' 1, example_toast ''B'' 2, example_toast ''C'' 3]"
proof -
  let ?q = "[example_toast ''A'' 1, example_toast ''B'' 2, example_toast ''C'' 3]"
  have absent: "7 \<notin> toast_id ` set ?q"
    by (simp add: example_toast_def)
  have split: "?q = [example_toast ''A'' 1] @ example_toast ''B'' 2 # [example_toast ''C'' 3]
      \<and> toast_id (example_toast ''B'' 2) = 2
      \<and> 2 \<notin> toast_id ` set [example_toast ''A'' 1]
      \<and> 2 \<notin> toast_id ` set [example_toast ''C'' 3]"
    by (simp add: example_toast_def)
  from removeToast_by_id [of 7 ?q] absent have "removeToast 7 ?q = ?q"
    by blast
  moreover from removeToast_by_id [of 2 ?q] split
  have "removeToast 2 ?q = [example_toast ''A'' 1] @ [example_toast ''C'' 3]"
    by blast
  ultimately show ?thesis by simp
qed

text \<open>
  The id of a toast is the reading of the clock. A reading later than every id in a
  queue of distinct ids is a fresh and larger id.
\<close>

lemma addToast_id_later:
  "distinct (map toast_id q) \<Longrightarrow> \<forall>t \<in> set q. toast_id t < now \<Longrightarrow>
   distinct (map toast_id (addToast now toast q))
   \<and> (\<forall>t \<in> set q. toast_id t < toast_id (last (addToast now toast q)))"
  by (auto simp: addToast_def)

text \<open>
  Claim C4 says that every pushed toast gets an id that is unique in the queue and larger
  than the ids pushed before. The code takes \<^verbatim>\<open>Date.now()\<close> for the id, so two toasts
  pushed while the clock shows the same millisecond carry the same id: the ids of the
  queue are then not distinct. The loop of the alert effect pushes one toast for each
  symbol that crosses a threshold, one after the other: for a snapshot in which BTCUSDT
  is overbought and ETHUSDT is oversold it asks for two toasts, and both get the id 1000
  when the clock reads 1000 for both.
\<close>

theorem toasts_of_one_millisecond_share_id:
  "map toast_id (addToast now t2 (addToast now t1 q)) = map toast_id q @ [now, now]
   \<and> \<not> distinct (map toast_id (addToast now t2 (addToast now t1 q)))
   \<and> fst (alert_effect True ''15m'' [(''BTCUSDT'', series [75]), (''ETHUSDT'', series [20])] []) =
       [\<lparr>toast_symbol = ''BTCUSDT'', toast_timeframe = ''15m'', toast_rsi = 75, toast_type = Overbought\<rparr>,
        \<lparr>toast_symbol = ''ETHUSDT'', toast_timeframe = ''15m'', toast_rsi = 20, toast_type = Oversold\<rparr>]
   \<and> map toast_id (fold (addToast 1000)
        (fst (alert_effect True ''15m'' [(''BTCUSDT'', series [75]), (''ETHUSDT'', series [20])] [])) [])
       = [1000, 1000]"
proof (intro conjI)
  show "map toast_id (addToast now t2 (addToast now t1 q)) = map toast_id q @ [now, now]"
    by (simp add: addToast_def)
  then show "\<not> distinct (map toast_id (addToast now t2 (addToast now t1 q)))"
    by simp
  show e: "fst (alert_effect True ''15m'' [(''BTCUSDT'', series [75]), (''ETHUSDT'', series [20])] []) =
       [\<lparr>toast_symbol = ''BTCUSDT'', toast_timeframe = ''15m'', toast_rsi = 75, toast_type = Overbought\<rparr>,
        \<lparr>toast_symbol = ''ETHUSDT'', toast_timeframe = ''15m'', toast_rsi = 20, toast_type = Oversold\<rparr>]"
    by (simp add: alert_effect_def alert_symbol_def ALLOWED_TIMEFRAMES_FOR_ALERTS_def series_def
        overboughtThreshold_def oversoldThreshold_def)
  show "map toast_id (fold (addToast 1000)
        (fst (alert_effect True ''15m'' [(''BTCUSDT'', series [75]), (''ETHUSDT'', series [20])] [])) [])
       = [1000, 1000]"
    unfolding e by (simp add: addToast_def)
qed

text \<open>
  The two toasts of that millisecond: their ids are not distinct, and dismissing the id
  1000 empties the queue.
\<close>

theorem toasts_of_one_millisecond_share_id_witness:
  "map toast_id (removeToast 1000
     (addToast 1000 (example_input ''ETHUSDT'') (addToast 1000 (example_input ''BTCUSDT'') []))) = []
   \<and> \<not> distinct (map toast_id
     (addToast 1000 (example_input ''ETHUSDT'') (addToast 1000 (example_input ''BTCUSDT'') [])))"
proof -
  have "map toast_id (addToast 1000 (example_input ''ETHUSDT'') (addToast 1000 (example_input ''BTCUSDT'') []))
      = [1000, 1000]"
    using toasts_of_one_millisecond_share_id [of 1000 "example_input ''ETHUSDT''" "example_input ''BTCUSDT''" "[]"]
    by simp
  then show ?thesis
    by (simp add: removeToast_def addToast_def)
qed

section \<open>Properties of the alert effect\<close>

text \<open>
  A visit of the loop is \<open>visit_toasts\<close> and \<open>visit_status\<close> together, so the loop
  concatenates the toasts of the visits and folds the status updates.
\<close>

lemma alert_symbol_visit:
  "alert_symbol snap tf st k (added, ns) = (added @ visit_toasts snap tf st k, visit_status snap k ns)"
  by (auto simp: alert_symbol_def visit_toasts_def visit_status_def latest_rsi_def
      previous_status_def rsi_status_def overboughtThreshold_def oversoldThreshold_def
      last_conv_nth Let_def split: option.splits)

lemma fold_alert_symbol:
  "fold (alert_symbol snap tf st) ks (added, ns) =
     (added @ concat (map (visit_toasts snap tf st) ks), fold (visit_status snap) ks ns)"
  by (induction ks arbitrary: added ns) (simp_all add: alert_symbol_visit)

lemma alert_effect_visit:
  "alert_effect enabled tf snap st =
     (if enabled \<and> tf \<in> set ALLOWED_TIMEFRAMES_FOR_ALERTS
      then (concat (map (visit_toasts snap tf st) (map fst snap)), fold (visit_status snap) (map fst snap) st)
      else ([], st))"
proof (cases "enabled \<and> tf \<in> set ALLOWED_TIMEFRAMES_FOR_ALERTS")
  case False
  then show ?thesis by (auto simp: alert_effect_def)
next
  case True
  show ?thesis
  proof (cases "snap = []")
    case True
    then show ?thesis by (simp add: alert_effect_def)
  next
    case False
    with True show ?thesis
      unfolding alert_effect_def fold_alert_symbol by simp
  qed
qed

lemma toasts_for_Nil: "toasts_for symbol [] = []"
  by (simp add: toasts_for_def)

lemma toasts_for_own: "toasts_for symbol (visit_toasts snap tf st symbol) = visit_toasts snap tf st symbol"
  by (auto simp: toasts_for_def visit_toasts_def split: option.splits)

lemma toasts_for_append: "toasts_for symbol (xs @ ys) = toasts_for symbol xs @ toasts_for symbol ys"
  by (simp add: toasts_for_def)

lemma toasts_for_visit:
  "toasts_for symbol (visit_toasts snap tf st k) = (if k = symbol then visit_toasts snap tf st symbol else [])"
  by (auto simp: toasts_for_def visit_toasts_def split: option.splits)

lemma toasts_for_visits:
  "distinct ks \<Longrightarrow>
   toasts_for symbol (concat (map (visit_toasts snap tf st) ks)) =
     (if symbol \<in> set ks then visit_toasts snap tf st symbol else [])"
  by (induction ks) (auto simp: toasts_for_append toasts_for_visit toasts_for_Nil toasts_for_own)

lemma toasts_for_visits_none:
  "visit_toasts snap tf st symbol = [] \<Longrightarrow> toasts_for symbol (concat (map (visit_toasts snap tf st) ks)) = []"
  by (induction ks) (auto simp: toasts_for_append toasts_for_visit toasts_for_Nil)

lemma map_of_visit_status:
  "map_of (visit_status snap k ns) symbol =
     (if k = symbol then
        (case map_of snap symbol of
           None \<Rightarrow> map_of ns symbol
         | Some d \<Rightarrow> if rsi d = [] then map_of ns symbol else Some (rsi_status (latest_rsi d)))
      else map_of ns symbol)"
  by (auto simp: visit_status_def update_conv' split: option.splits)

lemma map_of_fold_visit_status:
  "map_of (fold (visit_status snap) ks ns) symbol =
     (if symbol \<in> set ks then
        (case map_of snap symbol of
           None \<Rightarrow> map_of ns symbol
         | Some d \<Rightarrow> if rsi d = [] then map_of ns symbol else Some (rsi_status (latest_rsi d)))
      else map_of ns symbol)"
  by (induction ks arbitrary: ns) (auto simp: map_of_visit_status split: option.splits)

lemma key_of_map_of: "map_of snap symbol = Some d \<Longrightarrow> symbol \<in> set (map fst snap)"
  by (metis domI dom_map_of_conv_image_fst set_map)

text \<open>What one run of the effect does for one symbol.\<close>

lemma effect_toasts_evaluated:
  assumes "enabled" "tf \<in> set ALLOWED_TIMEFRAMES_FOR_ALERTS" "distinct (map fst snap)"
    "map_of snap symbol = Some d" "rsi d \<noteq> []"
  shows "toasts_for symbol (fst (alert_effect enabled tf snap st)) =
     (if rsi_status (latest_rsi d) \<noteq> previous_status st symbol \<and> rsi_status (latest_rsi d) \<noteq> Neutral
      then [\<lparr>toast_symbol = symbol, toast_timeframe = tf, toast_rsi = latest_rsi d,
              toast_type = rsi_status (latest_rsi d)\<rparr>]
      else [])"
proof -
  have key: "symbol \<in> set (map fst snap)" using assms(4) by (rule key_of_map_of)
  have "fst (alert_effect enabled tf snap st) = concat (map (visit_toasts snap tf st) (map fst snap))"
    using assms(1,2) unfolding alert_effect_visit by simp
  then have "toasts_for symbol (fst (alert_effect enabled tf snap st)) = visit_toasts snap tf st symbol"
    using toasts_for_visits [OF assms(3), of symbol snap tf st] key by (simp only: if_True)
  then show ?thesis using assms(4,5) by (simp add: visit_toasts_def)
qed

lemma effect_toasts_skipped:
  assumes "\<not> enabled \<or> tf \<notin> set ALLOWED_TIMEFRAMES_FOR_ALERTS \<or> map_of snap symbol = None
     \<or> (\<exists>d. map_of snap symbol = Some d \<and> rsi d = [])"
  shows "toasts_for symbol (fst (alert_effect enabled tf snap st)) = []"
proof (cases "enabled \<and> tf \<in> set ALLOWED_TIMEFRAMES_FOR_ALERTS")
  case False
  then show ?thesis by (auto simp: alert_effect_visit toasts_for_Nil)
next
  case True
  with assms have "visit_toasts snap tf st symbol = []"
    by (auto simp: visit_toasts_def)
  then have "toasts_for symbol (concat (map (visit_toasts snap tf st) (map fst snap))) = []"
    by (rule toasts_for_visits_none)
  moreover have "fst (alert_effect enabled tf snap st) = concat (map (visit_toasts snap tf st) (map fst snap))"
    using True unfolding alert_effect_visit by simp
  ultimately show ?thesis by (simp only:)
qed

lemma effect_status_evaluated:
  assumes "enabled" "tf \<in> set ALLOWED_TIMEFRAMES_FOR_ALERTS" "map_of snap symbol = Some d" "rsi d \<noteq> []"
  shows "map_of (snd (alert_effect enabled tf snap st)) symbol = Some (rsi_status (latest_rsi d))"
proof -
  have "symbol \<in> set (map fst snap)" using assms(3) by (rule key_of_map_of)
  then show ?thesis using assms by (simp add: alert_effect_visit map_of_fold_visit_status)
qed

lemma effect_status_skipped:
  assumes "\<not> enabled \<or> tf \<notin> set ALLOWED_TIMEFRAMES_FOR_ALERTS \<or> map_of snap symbol = None
     \<or> (\<exists>d. map_of snap symbol = Some d \<and> rsi d = [])"
  shows "map_of (snd (alert_effect enabled tf snap st)) symbol = map_of st symbol"
  using assms by (auto simp: alert_effect_visit map_of_fold_visit_status)

lemma effect_guard_closed:
  "\<not> enabled \<or> tf \<notin> set ALLOWED_TIMEFRAMES_FOR_ALERTS \<Longrightarrow> alert_effect enabled tf snap st = ([], st)"
  by (auto simp: alert_effect_visit)

lemma previous_status_recorded:
  assumes "enabled" "tf \<in> set ALLOWED_TIMEFRAMES_FOR_ALERTS" "map_of snap symbol = Some d" "rsi d \<noteq> []"
  shows "previous_status (snd (alert_effect enabled tf snap st)) symbol = rsi_status (latest_rsi d)"
  using effect_status_evaluated [OF assms] by (simp add: previous_status_def)

text \<open>
  Runs in a row. Writing the status map makes React run the effect once more on the same
  snapshot; \<open>alert_effect_rerun\<close> shows that this second run asks for no toast and
  leaves the status map as it is, so a refresh tick is one run.
\<close>

lemma run_effects_nth:
  "i < length ticks \<Longrightarrow> ticks ! i = (enabled, tf, snap) \<Longrightarrow>
   run_effects ticks st ! i = fst (alert_effect enabled tf snap (status_after (take i ticks) st))"
proof (induction ticks arbitrary: i st)
  case Nil
  then show ?case by simp
next
  case (Cons t ticks)
  obtain e f s where t: "t = (e, f, s)" by (cases t)
  show ?case
  proof (cases i)
    case 0
    with Cons.prems t show ?thesis by simp
  next
    case (Suc j)
    with Cons.prems have "j < length ticks" "ticks ! j = (enabled, tf, snap)" by simp_all
    from Cons.IH [OF this] Suc t show ?thesis by simp
  qed
qed

lemma run_effects_append:
  "run_effects (xs @ ys) st = run_effects xs st @ run_effects ys (status_after xs st)"
proof (induction xs arbitrary: st)
  case Nil
  then show ?case by simp
next
  case (Cons t xs)
  obtain e f s where "t = (e, f, s)" by (cases t)
  with Cons show ?case by simp
qed

lemma status_after_append: "status_after (xs @ ys) st = status_after ys (status_after xs st)"
proof (induction xs arbitrary: st)
  case Nil
  then show ?case by simp
next
  case (Cons t xs)
  obtain e f s where "t = (e, f, s)" by (cases t)
  with Cons show ?case by simp
qed

lemma status_after_Suc:
  "i < length ticks \<Longrightarrow> ticks ! i = (enabled, tf, snap) \<Longrightarrow>
   status_after (take (Suc i) ticks) st = snd (alert_effect enabled tf snap (status_after (take i ticks) st))"
  by (simp add: take_Suc_conv_app_nth status_after_append)

lemma status_after_disabled: "status_after (map (\<lambda>s. (False, tf, s)) offs) st = st"
  by (induction offs) (simp_all add: effect_guard_closed)

lemma run_effects_disabled:
  "run_effects (map (\<lambda>s. (False, tf, s)) offs) st = replicate (length offs) []"
  by (induction offs) (simp_all add: effect_guard_closed)

lemma alert_effect_rerun:
  "alert_effect enabled tf snap (snd (alert_effect enabled tf snap st)) = ([], snd (alert_effect enabled tf snap st))"
proof (cases "enabled \<and> tf \<in> set ALLOWED_TIMEFRAMES_FOR_ALERTS")
  case False
  then show ?thesis by (auto simp: effect_guard_closed)
next
  case True
  define st' where "st' = fold (visit_status snap) (map fst snap) st"
  have entry: "map_of st' k = (case map_of snap k of None \<Rightarrow> map_of st k
      | Some d \<Rightarrow> if rsi d = [] then map_of st k else Some (rsi_status (latest_rsi d)))"
    if "k \<in> set (map fst snap)" for k
    using that unfolding st'_def map_of_fold_visit_status by simp
  have same: "visit_status snap k st' = st'" if "k \<in> set (map fst snap)" for k
    using entry [OF that] by (auto simp: visit_status_def update_triv split: option.splits)
  have none: "visit_toasts snap tf st' k = []" if "k \<in> set (map fst snap)" for k
    using entry [OF that] by (auto simp: visit_toasts_def previous_status_def split: option.splits)
  have f: "fold (visit_status snap) ks st' = st'" if "set ks \<subseteq> set (map fst snap)" for ks
    using that by (induction ks) (simp_all add: same)
  have c: "concat (map (visit_toasts snap tf st') ks) = []" if "set ks \<subseteq> set (map fst snap)" for ks
    using that by (induction ks) (simp_all add: none)
  have "alert_effect enabled tf snap st' = ([], st')"
    unfolding alert_effect_visit using True f [of "map fst snap"] c [of "map fst snap"]
    by (simp del: map_map)
  moreover have "snd (alert_effect enabled tf snap st) = st'"
    unfolding alert_effect_visit st'_def using True by simp
  ultimately show ?thesis by simp
qed

text \<open>
  Claim C3. In a run of the effect with alerting enabled and an allowed timeframe, for
  every symbol of the snapshot whose RSI series is not empty, the status recorded after
  the run is the one computed from the last value of the series alone: overbought when
  the value is at least 70, oversold when it is at most 30, neutral otherwise. Nothing is
  assumed about the status recorded before or about the toasts of the run.
\<close>

theorem status_recorded_from_latest_rsi:
  assumes "areAlertsEnabled" and "timeframe \<in> set ALLOWED_TIMEFRAMES_FOR_ALERTS"
    and "map_of snapshot symbol = Some d" and "rsi d \<noteq> []"
  shows "map_of (snd (alert_effect areAlertsEnabled timeframe snapshot lastAlertedRsiStatus)) symbol =
     Some (if rsi_value (last (rsi d)) \<ge> 70 then Overbought
           else if rsi_value (last (rsi d)) \<le> 30 then Oversold
           else Neutral)"
  using effect_status_evaluated [OF assms] by (simp add: rsi_status_def latest_rsi_def)

text \<open>
  The theorem at a snapshot of three symbols, with BTCUSDT recorded as overbought before:
  the statuses recorded after the run are overbought (75), oversold (20) and neutral (55).
\<close>

theorem status_recorded_from_latest_rsi_witness:
  "map_of (snd (alert_effect True ''15m''
       [(''BTCUSDT'', series [50, 75]), (''ETHUSDT'', series [80, 20]), (''XRPUSDT'', series [10, 55])]
       [(''BTCUSDT'', Overbought)]))
     = [''BTCUSDT'' \<mapsto> Overbought, ''ETHUSDT'' \<mapsto> Oversold, ''XRPUSDT'' \<mapsto> Neutral]"
proof -
  let ?snap = "[(''BTCUSDT'', series [50, 75]), (''ETHUSDT'', series [80, 20]), (''XRPUSDT'', series [10, 55])]"
  let ?st = "[(''BTCUSDT'', Overbought)]"
  have tf: "''15m'' \<in> set ALLOWED_TIMEFRAMES_FOR_ALERTS"
    by (simp add: ALLOWED_TIMEFRAMES_FOR_ALERTS_def)
  have btc: "map_of (snd (alert_effect True ''15m'' ?snap ?st)) ''BTCUSDT'' = Some Overbought"
    using status_recorded_from_latest_rsi [of True "''15m''" ?snap "''BTCUSDT''" "series [50, 75]" ?st] tf
    by (simp add: series_def)
  have eth: "map_of (snd (alert_effect True ''15m'' ?snap ?st)) ''ETHUSDT'' = Some Oversold"
    using status_recorded_from_latest_rsi [of True "''15m''" ?snap "''ETHUSDT''" "series [80, 20]" ?st] tf
    by (simp add: series_def)
  have xrp: "map_of (snd (alert_effect True ''15m'' ?snap ?st)) ''XRPUSDT'' = Some Neutral"
    using status_recorded_from_latest_rsi [of True "''15m''" ?snap "''XRPUSDT''" "series [10, 55]" ?st] tf
    by (simp add: series_def)
  have other: "map_of (snd (alert_effect True ''15m'' ?snap ?st)) k = None"
    if "k \<noteq> ''BTCUSDT''" "k \<noteq> ''ETHUSDT''" "k \<noteq> ''XRPUSDT''" for k
    using that effect_status_skipped [of True "''15m''" ?snap k ?st] by simp
  show ?thesis
    using btc eth xrp other by (intro ext) (simp add: fun_upd_def)
qed

text \<open>
  Claim C2. For every sequence of runs, every run \<open>i\<close> of it and every symbol: when the
  run evaluates the symbol (alerting enabled, timeframe allowed, the symbol in the
  snapshot with a non-empty series), the toasts it asks for the symbol are exactly one
  toast, of the computed status, if that status differs from the status recorded by the
  runs before (neutral when none is recorded) and is overbought or oversold, and none
  otherwise; when the run does not evaluate the symbol, it asks for no toast for it.
  For five runs in which the statuses of a symbol are neutral, overbought, overbought,
  neutral, overbought, the numbers of toasts for the symbol are 0, 1, 0, 0, 1, whatever
  was recorded before the first run.
  The status recorded is the one the runs leave: a run that evaluates the symbol records
  the status it computed, overbought, oversold or neutral, and a run that does not
  evaluate it leaves its entry as it is. Hence, for every status: when two consecutive
  runs evaluate the symbol and compute the same status, the second asks for no toast
  for it; and a run that computes neutral asks for no toast for it, whatever was
  recorded.
\<close>

theorem toast_iff_status_transition:
  "(i < length ticks \<and> ticks ! i = (True, tf, snap) \<and> tf \<in> set ALLOWED_TIMEFRAMES_FOR_ALERTS
      \<and> distinct (map fst snap) \<and> map_of snap symbol = Some d \<and> rsi d \<noteq> [] \<longrightarrow>
      toasts_for symbol (run_effects ticks st ! i) =
        (if rsi_status (rsi_value (last (rsi d))) \<noteq>
              (case map_of (status_after (take i ticks) st) symbol of None \<Rightarrow> Neutral | Some s \<Rightarrow> s)
            \<and> (rsi_status (rsi_value (last (rsi d))) = Overbought
                \<or> rsi_status (rsi_value (last (rsi d))) = Oversold)
         then [\<lparr>toast_symbol = symbol, toast_timeframe = tf, toast_rsi = rsi_value (last (rsi d)),
                 toast_type = rsi_status (rsi_value (last (rsi d)))\<rparr>]
         else []))
   \<and> (i < length ticks \<and> ticks ! i = (enabled, tf, snap)
      \<and> (\<not> enabled \<or> tf \<notin> set ALLOWED_TIMEFRAMES_FOR_ALERTS \<or> map_of snap symbol = None
          \<or> (\<exists>d. map_of snap symbol = Some d \<and> rsi d = [])) \<longrightarrow>
      toasts_for symbol (run_effects ticks st ! i) = [])
   \<and> (tf \<in> set ALLOWED_TIMEFRAMES_FOR_ALERTS
      \<and> distinct (map fst s1) \<and> map_of s1 symbol = Some d1 \<and> rsi d1 \<noteq> []
      \<and> distinct (map fst s2) \<and> map_of s2 symbol = Some d2 \<and> rsi d2 \<noteq> []
      \<and> distinct (map fst s3) \<and> map_of s3 symbol = Some d3 \<and> rsi d3 \<noteq> []
      \<and> distinct (map fst s4) \<and> map_of s4 symbol = Some d4 \<and> rsi d4 \<noteq> []
      \<and> distinct (map fst s5) \<and> map_of s5 symbol = Some d5 \<and> rsi d5 \<noteq> []
      \<and> map (\<lambda>d. rsi_status (rsi_value (last (rsi d)))) [d1, d2, d3, d4, d5]
          = [Neutral, Overbought, Overbought, Neutral, Overbought] \<longrightarrow>
      map (\<lambda>added. length (toasts_for symbol added))
        (run_effects [(True, tf, s1), (True, tf, s2), (True, tf, s3), (True, tf, s4), (True, tf, s5)] st)
        = [0, 1, 0, 0, 1])
   \<and> (i < length ticks \<and> ticks ! i = (True, tf, snap) \<and> tf \<in> set ALLOWED_TIMEFRAMES_FOR_ALERTS
      \<and> map_of snap symbol = Some d \<and> rsi d \<noteq> [] \<longrightarrow>
      map_of (status_after (take (Suc i) ticks) st) symbol = Some (rsi_status (rsi_value (last (rsi d)))))
   \<and> (i < length ticks \<and> ticks ! i = (enabled, tf, snap)
      \<and> (\<not> enabled \<or> tf \<notin> set ALLOWED_TIMEFRAMES_FOR_ALERTS \<or> map_of snap symbol = None
          \<or> (\<exists>d. map_of snap symbol = Some d \<and> rsi d = [])) \<longrightarrow>
      map_of (status_after (take (Suc i) ticks) st) symbol = map_of (status_after (take i ticks) st) symbol)
   \<and> (Suc i < length ticks \<and> ticks ! i = (True, tf, snap) \<and> ticks ! Suc i = (True, tf', snap')
      \<and> tf \<in> set ALLOWED_TIMEFRAMES_FOR_ALERTS \<and> tf' \<in> set ALLOWED_TIMEFRAMES_FOR_ALERTS
      \<and> map_of snap symbol = Some d \<and> rsi d \<noteq> [] \<and> map_of snap' symbol = Some d' \<and> rsi d' \<noteq> []
      \<and> rsi_status (rsi_value (last (rsi d'))) = rsi_status (rsi_value (last (rsi d))) \<longrightarrow>
      toasts_for symbol (run_effects ticks st ! Suc i) = [])
   \<and> (i < length ticks \<and> ticks ! i = (enabled, tf, snap) \<and> map_of snap symbol = Some d \<and> rsi d \<noteq> []
      \<and> rsi_status (rsi_value (last (rsi d))) = Neutral \<longrightarrow>
      toasts_for symbol (run_effects ticks st ! i) = [])"
proof (intro conjI impI)
  assume a: "i < length ticks \<and> ticks ! i = (True, tf, snap) \<and> tf \<in> set ALLOWED_TIMEFRAMES_FOR_ALERTS
      \<and> distinct (map fst snap) \<and> map_of snap symbol = Some d \<and> rsi d \<noteq> []"
  then have "run_effects ticks st ! i = fst (alert_effect True tf snap (status_after (take i ticks) st))"
    by (simp add: run_effects_nth)
  moreover have "rsi_status (latest_rsi d) = Overbought \<or> rsi_status (latest_rsi d) = Oversold
      \<longleftrightarrow> rsi_status (latest_rsi d) \<noteq> Neutral"
    by (cases "rsi_status (latest_rsi d)") simp_all
  ultimately show "toasts_for symbol (run_effects ticks st ! i) =
        (if rsi_status (rsi_value (last (rsi d))) \<noteq>
              (case map_of (status_after (take i ticks) st) symbol of None \<Rightarrow> Neutral | Some s \<Rightarrow> s)
            \<and> (rsi_status (rsi_value (last (rsi d))) = Overbought
                \<or> rsi_status (rsi_value (last (rsi d))) = Oversold)
         then [\<lparr>toast_symbol = symbol, toast_timeframe = tf, toast_rsi = rsi_value (last (rsi d)),
                 toast_type = rsi_status (rsi_value (last (rsi d)))\<rparr>]
         else [])"
    using a effect_toasts_evaluated [of True tf snap symbol d "status_after (take i ticks) st"]
    by (simp add: latest_rsi_def previous_status_def)
next
  assume c: "i < length ticks \<and> ticks ! i = (enabled, tf, snap)
      \<and> (\<not> enabled \<or> tf \<notin> set ALLOWED_TIMEFRAMES_FOR_ALERTS \<or> map_of snap symbol = None
          \<or> (\<exists>d. map_of snap symbol = Some d \<and> rsi d = []))"
  then have "run_effects ticks st ! i = fst (alert_effect enabled tf snap (status_after (take i ticks) st))"
    by (simp add: run_effects_nth)
  with c show "toasts_for symbol (run_effects ticks st ! i) = []"
    by (simp add: effect_toasts_skipped)
next
  assume b: "tf \<in> set ALLOWED_TIMEFRAMES_FOR_ALERTS
      \<and> distinct (map fst s1) \<and> map_of s1 symbol = Some d1 \<and> rsi d1 \<noteq> []
      \<and> distinct (map fst s2) \<and> map_of s2 symbol = Some d2 \<and> rsi d2 \<noteq> []
      \<and> distinct (map fst s3) \<and> map_of s3 symbol = Some d3 \<and> rsi d3 \<noteq> []
      \<and> distinct (map fst s4) \<and> map_of s4 symbol = Some d4 \<and> rsi d4 \<noteq> []
      \<and> distinct (map fst s5) \<and> map_of s5 symbol = Some d5 \<and> rsi d5 \<noteq> []
      \<and> map (\<lambda>d. rsi_status (rsi_value (last (rsi d)))) [d1, d2, d3, d4, d5]
          = [Neutral, Overbought, Overbought, Neutral, Overbought]"
  then have tf: "tf \<in> set ALLOWED_TIMEFRAMES_FOR_ALERTS" by simp
  from b have st: "rsi_status (latest_rsi d1) = Neutral" "rsi_status (latest_rsi d2) = Overbought"
      "rsi_status (latest_rsi d3) = Overbought" "rsi_status (latest_rsi d4) = Neutral"
      "rsi_status (latest_rsi d5) = Overbought"
    by (simp_all add: latest_rsi_def)
  define st1 where "st1 = snd (alert_effect True tf s1 st)"
  define st2 where "st2 = snd (alert_effect True tf s2 st1)"
  define st3 where "st3 = snd (alert_effect True tf s3 st2)"
  define st4 where "st4 = snd (alert_effect True tf s4 st3)"
  have p1: "previous_status st1 symbol = Neutral"
    unfolding st1_def using b tf st(1) by (simp add: previous_status_recorded)
  have p2: "previous_status st2 symbol = Overbought"
    unfolding st2_def using b tf st(2) by (simp add: previous_status_recorded)
  have p3: "previous_status st3 symbol = Overbought"
    unfolding st3_def using b tf st(3) by (simp add: previous_status_recorded)
  have p4: "previous_status st4 symbol = Neutral"
    unfolding st4_def using b tf st(4) by (simp add: previous_status_recorded)
  have t1: "length (toasts_for symbol (fst (alert_effect True tf s1 st))) = 0"
    using b tf st(1) by (simp add: effect_toasts_evaluated)
  have t2: "length (toasts_for symbol (fst (alert_effect True tf s2 st1))) = 1"
    using b tf st(2) p1 by (simp add: effect_toasts_evaluated)
  have t3: "length (toasts_for symbol (fst (alert_effect True tf s3 st2))) = 0"
    using b tf st(3) p2 by (simp add: effect_toasts_evaluated)
  have t4: "length (toasts_for symbol (fst (alert_effect True tf s4 st3))) = 0"
    using b tf st(4) p3 by (simp add: effect_toasts_evaluated)
  have t5: "length (toasts_for symbol (fst (alert_effect True tf s5 st4))) = 1"
    using b tf st(5) p4 by (simp add: effect_toasts_evaluated)
  show "map (\<lambda>added. length (toasts_for symbol added))
        (run_effects [(True, tf, s1), (True, tf, s2), (True, tf, s3), (True, tf, s4), (True, tf, s5)] st)
        = [0, 1, 0, 0, 1]"
    using t1 t2 t3 t4 t5 by (simp add: st1_def st2_def st3_def st4_def)
next
  assume r: "i < length ticks \<and> ticks ! i = (True, tf, snap) \<and> tf \<in> set ALLOWED_TIMEFRAMES_FOR_ALERTS
      \<and> map_of snap symbol = Some d \<and> rsi d \<noteq> []"
  then have "status_after (take (Suc i) ticks) st = snd (alert_effect True tf snap (status_after (take i ticks) st))"
    by (simp add: status_after_Suc)
  with r show "map_of (status_after (take (Suc i) ticks) st) symbol = Some (rsi_status (rsi_value (last (rsi d))))"
    using effect_status_evaluated [of True tf snap symbol d "status_after (take i ticks) st"]
    by (simp add: latest_rsi_def)
next
  assume k: "i < length ticks \<and> ticks ! i = (enabled, tf, snap)
      \<and> (\<not> enabled \<or> tf \<notin> set ALLOWED_TIMEFRAMES_FOR_ALERTS \<or> map_of snap symbol = None
          \<or> (\<exists>d. map_of snap symbol = Some d \<and> rsi d = []))"
  then have "status_after (take (Suc i) ticks) st = snd (alert_effect enabled tf snap (status_after (take i ticks) st))"
    by (simp add: status_after_Suc)
  with k show "map_of (status_after (take (Suc i) ticks) st) symbol = map_of (status_after (take i ticks) st) symbol"
    by (simp add: effect_status_skipped)
next
  assume e: "Suc i < length ticks \<and> ticks ! i = (True, tf, snap) \<and> ticks ! Suc i = (True, tf', snap')
      \<and> tf \<in> set ALLOWED_TIMEFRAMES_FOR_ALERTS \<and> tf' \<in> set ALLOWED_TIMEFRAMES_FOR_ALERTS
      \<and> map_of snap symbol = Some d \<and> rsi d \<noteq> [] \<and> map_of snap' symbol = Some d' \<and> rsi d' \<noteq> []
      \<and> rsi_status (rsi_value (last (rsi d'))) = rsi_status (rsi_value (last (rsi d)))"
  define before where "before = status_after (take (Suc i) ticks) st"
  have "before = snd (alert_effect True tf snap (status_after (take i ticks) st))"
    unfolding before_def using e by (simp add: status_after_Suc)
  then have "previous_status before symbol = rsi_status (latest_rsi d)"
    using e by (simp add: previous_status_recorded)
  then have "visit_toasts snap' tf' before symbol = []"
    using e by (simp add: visit_toasts_def latest_rsi_def)
  then have "toasts_for symbol (concat (map (visit_toasts snap' tf' before) (map fst snap'))) = []"
    by (rule toasts_for_visits_none)
  moreover have "fst (alert_effect True tf' snap' before) =
      concat (map (visit_toasts snap' tf' before) (map fst snap'))"
    using e unfolding alert_effect_visit by simp
  moreover have "run_effects ticks st ! Suc i = fst (alert_effect True tf' snap' before)"
    unfolding before_def using e by (simp add: run_effects_nth)
  ultimately show "toasts_for symbol (run_effects ticks st ! Suc i) = []"
    by (simp only:)
next
  assume n: "i < length ticks \<and> ticks ! i = (enabled, tf, snap) \<and> map_of snap symbol = Some d \<and> rsi d \<noteq> []
      \<and> rsi_status (rsi_value (last (rsi d))) = Neutral"
  define before where "before = status_after (take i ticks) st"
  have run: "run_effects ticks st ! i = fst (alert_effect enabled tf snap before)"
    unfolding before_def using n by (simp add: run_effects_nth)
  show "toasts_for symbol (run_effects ticks st ! i) = []"
  proof (cases "enabled \<and> tf \<in> set ALLOWED_TIMEFRAMES_FOR_ALERTS")
    case False
    then have "alert_effect enabled tf snap before = ([], before)"
      by (auto simp: effect_guard_closed)
    then show ?thesis unfolding run by (simp add: toasts_for_Nil)
  next
    case True
    have "visit_toasts snap tf before symbol = []"
      using n by (simp add: visit_toasts_def latest_rsi_def)
    then have "toasts_for symbol (concat (map (visit_toasts snap tf before) (map fst snap))) = []"
      by (rule toasts_for_visits_none)
    moreover have "fst (alert_effect enabled tf snap before) =
        concat (map (visit_toasts snap tf before) (map fst snap))"
      using True unfolding alert_effect_visit by simp
    ultimately show ?thesis unfolding run by (simp only:)
  qed
qed

text \<open>
  The theorem at five snapshots in which the last RSI values of BTCUSDT are 50, 75, 80,
  50 and 72, from the empty status map: two toasts, at the second and the fifth run; the
  second run records overbought, the third (overbought again) and the fourth (neutral)
  ask for nothing. And at ETHUSDT with the values 25 and 20 and then a run with alerting
  disabled: the first run records oversold, the second asks for no toast, and the entry
  is still oversold after the disabled run.
\<close>

theorem toast_iff_status_transition_witness:
  "map (\<lambda>added. length (toasts_for ''BTCUSDT'' added)) (run_effects five_ticks []) = [0, 1, 0, 0, 1]
   \<and> toasts_for ''BTCUSDT'' (run_effects five_ticks [] ! 4) =
       [\<lparr>toast_symbol = ''BTCUSDT'', toast_timeframe = ''15m'', toast_rsi = 72, toast_type = Overbought\<rparr>]
   \<and> map_of (status_after (take 2 five_ticks) []) ''BTCUSDT'' = Some Overbought
   \<and> toasts_for ''BTCUSDT'' (run_effects five_ticks [] ! 2) = []
   \<and> toasts_for ''BTCUSDT'' (run_effects five_ticks [] ! 3) = []
   \<and> map_of (status_after (take 1 [(True, ''1h'', [(''ETHUSDT'', series [25])]),
         (True, ''1h'', [(''ETHUSDT'', series [20])]), (False, ''1h'', [(''ETHUSDT'', series [50])])]) [])
       ''ETHUSDT'' = Some Oversold
   \<and> toasts_for ''ETHUSDT'' (run_effects [(True, ''1h'', [(''ETHUSDT'', series [25])]),
         (True, ''1h'', [(''ETHUSDT'', series [20])]), (False, ''1h'', [(''ETHUSDT'', series [50])])] [] ! 1) = []
   \<and> map_of (status_after (take 3 [(True, ''1h'', [(''ETHUSDT'', series [25])]),
         (True, ''1h'', [(''ETHUSDT'', series [20])]), (False, ''1h'', [(''ETHUSDT'', series [50])])]) [])
       ''ETHUSDT'' = Some Oversold"
proof -
  let ?s = "\<lambda>v. [(''BTCUSDT'', series [v]), (''ETHUSDT'', series [45])]"
  let ?e = "\<lambda>v. [(''ETHUSDT'', series [v])]"
  let ?eth = "[(True, ''1h'', ?e 25), (True, ''1h'', ?e 20), (False, ''1h'', ?e 50)]"
  have ticks: "five_ticks = [(True, ''15m'', ?s 50), (True, ''15m'', ?s 75), (True, ''15m'', ?s 80),
      (True, ''15m'', ?s 50), (True, ''15m'', ?s 72)]"
    by (simp add: five_ticks_def)
  have tf: "''15m'' \<in> set ALLOWED_TIMEFRAMES_FOR_ALERTS" "''1h'' \<in> set ALLOWED_TIMEFRAMES_FOR_ALERTS"
    by (simp_all add: ALLOWED_TIMEFRAMES_FOR_ALERTS_def)
  have prev: "map_of (status_after (take 4 five_ticks) []) ''BTCUSDT'' = Some Neutral"
    by (simp add: ticks alert_effect_def alert_symbol_def ALLOWED_TIMEFRAMES_FOR_ALERTS_def series_def
        overboughtThreshold_def oversoldThreshold_def)
  have seq: "map (\<lambda>added. length (toasts_for ''BTCUSDT'' added)) (run_effects five_ticks []) = [0, 1, 0, 0, 1]"
    using toast_iff_status_transition [where tf = "''15m''" and symbol = "''BTCUSDT''" and st = "[]"
        and ?s1.0 = "?s 50" and ?s2.0 = "?s 75" and ?s3.0 = "?s 80" and ?s4.0 = "?s 50" and ?s5.0 = "?s 72"
        and ?d1.0 = "series [50]" and ?d2.0 = "series [75]" and ?d3.0 = "series [80]"
        and ?d4.0 = "series [50]" and ?d5.0 = "series [72]",
        THEN conjunct2, THEN conjunct2, THEN conjunct1] tf(1)
    by (simp add: ticks series_def rsi_status_def)
  have one: "toasts_for ''BTCUSDT'' (run_effects five_ticks [] ! 4) =
       [\<lparr>toast_symbol = ''BTCUSDT'', toast_timeframe = ''15m'', toast_rsi = 72, toast_type = Overbought\<rparr>]"
    using toast_iff_status_transition [where i = 4 and ticks = five_ticks and tf = "''15m''"
        and snap = "?s 72" and symbol = "''BTCUSDT''" and d = "series [72]" and st = "[]",
        THEN conjunct1] tf(1) prev
    by (simp add: ticks series_def rsi_status_def)
  have rec: "map_of (status_after (take 2 five_ticks) []) ''BTCUSDT'' = Some Overbought"
    using toast_iff_status_transition [where i = 1 and ticks = five_ticks and tf = "''15m''"
        and snap = "?s 75" and symbol = "''BTCUSDT''" and d = "series [75]" and st = "[]",
        THEN conjunct2, THEN conjunct2, THEN conjunct2, THEN conjunct1] tf(1)
    by (simp add: ticks series_def rsi_status_def numeral_2_eq_2)
  have same: "toasts_for ''BTCUSDT'' (run_effects five_ticks [] ! 2) = []"
    using toast_iff_status_transition [where i = 1 and ticks = five_ticks and tf = "''15m''"
        and tf' = "''15m''" and snap = "?s 75" and snap' = "?s 80" and symbol = "''BTCUSDT''"
        and d = "series [75]" and d' = "series [80]" and st = "[]",
        THEN conjunct2, THEN conjunct2, THEN conjunct2, THEN conjunct2, THEN conjunct2, THEN conjunct1] tf(1)
    by (simp add: ticks series_def rsi_status_def numeral_2_eq_2)
  have neutral: "toasts_for ''BTCUSDT'' (run_effects five_ticks [] ! 3) = []"
    using toast_iff_status_transition [where i = 3 and ticks = five_ticks and enabled = True
        and tf = "''15m''" and snap = "?s 50" and symbol = "''BTCUSDT''" and d = "series [50]" and st = "[]",
        THEN conjunct2, THEN conjunct2, THEN conjunct2, THEN conjunct2, THEN conjunct2, THEN conjunct2]
    by (simp add: ticks series_def rsi_status_def)
  have eth1: "map_of (status_after (take 1 ?eth) []) ''ETHUSDT'' = Some Oversold"
    using toast_iff_status_transition [where i = 0 and ticks = ?eth and tf = "''1h''"
        and snap = "?e 25" and symbol = "''ETHUSDT''" and d = "series [25]" and st = "[]",
        THEN conjunct2, THEN conjunct2, THEN conjunct2, THEN conjunct1] tf(2)
    by (simp add: series_def rsi_status_def)
  have eth_same: "toasts_for ''ETHUSDT'' (run_effects ?eth [] ! 1) = []"
    using toast_iff_status_transition [where i = 0 and ticks = ?eth and tf = "''1h''"
        and tf' = "''1h''" and snap = "?e 25" and snap' = "?e 20" and symbol = "''ETHUSDT''"
        and d = "series [25]" and d' = "series [20]" and st = "[]",
        THEN conjunct2, THEN conjunct2, THEN conjunct2, THEN conjunct2, THEN conjunct2, THEN conjunct1] tf(2)
    by (simp add: series_def rsi_status_def)
  have eth2: "map_of (status_after (take 2 ?eth) []) ''ETHUSDT'' = Some Oversold"
    using toast_iff_status_transition [where i = 1 and ticks = ?eth and tf = "''1h''"
        and snap = "?e 20" and symbol = "''ETHUSDT''" and d = "series [20]" and st = "[]",
        THEN conjunct2, THEN conjunct2, THEN conjunct2, THEN conjunct1] tf(2)
    by (simp add: series_def rsi_status_def numeral_2_eq_2)
  have "map_of (status_after (take (Suc 2) ?eth) []) ''ETHUSDT'' = map_of (status_after (take 2 ?eth) []) ''ETHUSDT''"
    using toast_iff_status_transition [where i = 2 and ticks = ?eth and enabled = False and tf = "''1h''"
        and snap = "?e 50" and symbol = "''ETHUSDT''" and st = "[]",
        THEN conjunct2, THEN conjunct2, THEN conjunct2, THEN conjunct2, THEN conjunct1]
    by simp
  with eth2 have eth3: "map_of (status_after (take 3 ?eth) []) ''ETHUSDT'' = Some Oversold"
    by (simp add: numeral_3_eq_3)
  from seq one rec same neutral eth1 eth_same eth3 show ?thesis by simp
qed

text \<open>
  Removing from the snapshot a symbol whose visit does nothing changes neither the
  toasts nor the status map.
\<close>

lemma visit_toasts_delete:
  "k \<noteq> symbol \<Longrightarrow> visit_toasts (AList.delete symbol snap) tf st k = visit_toasts snap tf st k"
  by (simp add: visit_toasts_def)

lemma visit_status_delete:
  "k \<noteq> symbol \<Longrightarrow> visit_status (AList.delete symbol snap) k ns = visit_status snap k ns"
  by (simp add: visit_status_def)

lemma concat_visits_delete:
  "visit_toasts snap tf st symbol = [] \<Longrightarrow>
   concat (map (visit_toasts (AList.delete symbol snap) tf st) (removeAll symbol ks)) =
   concat (map (visit_toasts snap tf st) ks)"
  by (induction ks) (auto simp: visit_toasts_delete)

lemma fold_visits_delete:
  "(\<And>ns. visit_status snap symbol ns = ns) \<Longrightarrow>
   fold (visit_status (AList.delete symbol snap)) (removeAll symbol ks) ns =
   fold (visit_status snap) ks ns"
  by (induction ks arbitrary: ns) (auto simp: visit_status_delete)

text \<open>
  Claim C9. For every run of the effect and every symbol whose series in the snapshot is
  empty: the entry of the symbol in the status map is unchanged, no toast is asked for
  it, and the run gives the same toasts and the same status map as a run on the snapshot
  without the symbol, so every other symbol is processed as usual.
\<close>

theorem empty_series_skipped:
  assumes "map_of snapshot symbol = Some d" and "rsi d = []"
  shows "map_of (snd (alert_effect areAlertsEnabled timeframe snapshot lastAlertedRsiStatus)) symbol =
           map_of lastAlertedRsiStatus symbol
     \<and> toasts_for symbol (fst (alert_effect areAlertsEnabled timeframe snapshot lastAlertedRsiStatus)) = []
     \<and> alert_effect areAlertsEnabled timeframe snapshot lastAlertedRsiStatus =
         alert_effect areAlertsEnabled timeframe (AList.delete symbol snapshot) lastAlertedRsiStatus"
proof (intro conjI)
  show "map_of (snd (alert_effect areAlertsEnabled timeframe snapshot lastAlertedRsiStatus)) symbol =
           map_of lastAlertedRsiStatus symbol"
    using assms by (simp add: effect_status_skipped)
  show "toasts_for symbol (fst (alert_effect areAlertsEnabled timeframe snapshot lastAlertedRsiStatus)) = []"
    using assms by (simp add: effect_toasts_skipped)
  have t: "visit_toasts snapshot timeframe lastAlertedRsiStatus symbol = []"
    using assms by (simp add: visit_toasts_def)
  have s: "visit_status snapshot symbol ns = ns" for ns
    using assms by (simp add: visit_status_def)
  show "alert_effect areAlertsEnabled timeframe snapshot lastAlertedRsiStatus =
         alert_effect areAlertsEnabled timeframe (AList.delete symbol snapshot) lastAlertedRsiStatus"
    unfolding alert_effect_visit delete_keys
    using concat_visits_delete [OF t, of "map fst snapshot"]
      fold_visits_delete [of snapshot symbol "map fst snapshot" lastAlertedRsiStatus, OF s]
    by (simp only:)
qed

text \<open>
  The theorem at a snapshot in which BTCUSDT has an empty series and ETHUSDT is at 75:
  the entry of BTCUSDT stays oversold, ETHUSDT gets its toast and its status.
\<close>

theorem empty_series_skipped_witness:
  "alert_effect True ''1h'' [(''BTCUSDT'', series []), (''ETHUSDT'', series [75])] [(''BTCUSDT'', Oversold)]
     = ([\<lparr>toast_symbol = ''ETHUSDT'', toast_timeframe = ''1h'', toast_rsi = 75, toast_type = Overbought\<rparr>],
        [(''BTCUSDT'', Oversold), (''ETHUSDT'', Overbought)])
   \<and> map_of (snd (alert_effect True ''1h'' [(''BTCUSDT'', series []), (''ETHUSDT'', series [75])]
        [(''BTCUSDT'', Oversold)])) ''BTCUSDT'' = Some Oversold"
proof -
  let ?snap = "[(''BTCUSDT'', series []), (''ETHUSDT'', series [75])]"
  let ?st = "[(''BTCUSDT'', Oversold)]"
  have h: "map_of ?snap ''BTCUSDT'' = Some (series [])" "rsi (series []) = []"
    by (simp_all add: series_def)
  have "alert_effect True ''1h'' ?snap ?st =
      ([\<lparr>toast_symbol = ''ETHUSDT'', toast_timeframe = ''1h'', toast_rsi = 75, toast_type = Overbought\<rparr>],
        [(''BTCUSDT'', Oversold), (''ETHUSDT'', Overbought)])"
    by (simp add: alert_effect_def alert_symbol_def ALLOWED_TIMEFRAMES_FOR_ALERTS_def series_def
        overboughtThreshold_def oversoldThreshold_def)
  moreover have "map_of (snd (alert_effect True ''1h'' ?snap ?st)) ''BTCUSDT'' = Some Oversold"
    using empty_series_skipped [OF h, of True "''1h''" ?st, THEN conjunct1] by simp
  ultimately show ?thesis by simp
qed

text \<open>
  Claim C5. The timeframes allowed for alerts are 15m, 30m, 1h, 2h, 4h, 8h, 1d, 3d and
  1w. A run of the effect with alerting disabled, or with a timeframe outside that list,
  asks for no toast and leaves the status map as it is. When a symbol is overbought in a
  run with alerting enabled, then alerting is switched off for any number of runs, and
  the symbol is overbought again in the first run after alerting is switched on, the
  status map after the disabled runs is the one the first run left, the disabled runs
  ask for no toast, and the run after them asks for no toast for the symbol.
\<close>

theorem alerts_guarded:
  "set ALLOWED_TIMEFRAMES_FOR_ALERTS = {''15m'', ''30m'', ''1h'', ''2h'', ''4h'', ''8h'', ''1d'', ''3d'', ''1w''}
   \<and> (\<not> areAlertsEnabled \<or> timeframe \<notin> set ALLOWED_TIMEFRAMES_FOR_ALERTS \<longrightarrow>
        alert_effect areAlertsEnabled timeframe snapshot lastAlertedRsiStatus = ([], lastAlertedRsiStatus))
   \<and> (map_of s1 symbol = Some d1 \<and> rsi d1 \<noteq> [] \<and> rsi_value (last (rsi d1)) \<ge> 70
        \<and> map_of s2 symbol = Some d2 \<and> rsi d2 \<noteq> [] \<and> rsi_value (last (rsi d2)) \<ge> 70 \<longrightarrow>
        status_after ((True, tf, s1) # map (\<lambda>s. (False, tf, s)) offs) st = status_after [(True, tf, s1)] st
        \<and> run_effects ((True, tf, s1) # map (\<lambda>s. (False, tf, s)) offs @ [(True, tf, s2)]) st =
            fst (alert_effect True tf s1 st) # replicate (length offs) []
              @ [fst (alert_effect True tf s2 (status_after [(True, tf, s1)] st))]
        \<and> toasts_for symbol (fst (alert_effect True tf s2 (status_after [(True, tf, s1)] st))) = [])"
proof (intro conjI impI)
  show "set ALLOWED_TIMEFRAMES_FOR_ALERTS = {''15m'', ''30m'', ''1h'', ''2h'', ''4h'', ''8h'', ''1d'', ''3d'', ''1w''}"
    by (simp add: ALLOWED_TIMEFRAMES_FOR_ALERTS_def)
  show "alert_effect areAlertsEnabled timeframe snapshot lastAlertedRsiStatus = ([], lastAlertedRsiStatus)"
    if "\<not> areAlertsEnabled \<or> timeframe \<notin> set ALLOWED_TIMEFRAMES_FOR_ALERTS"
    using that by (rule effect_guard_closed)
next
  assume a: "map_of s1 symbol = Some d1 \<and> rsi d1 \<noteq> [] \<and> rsi_value (last (rsi d1)) \<ge> 70
        \<and> map_of s2 symbol = Some d2 \<and> rsi d2 \<noteq> [] \<and> rsi_value (last (rsi d2)) \<ge> 70"
  define st1 where "st1 = snd (alert_effect True tf s1 st)"
  have st1: "status_after [(True, tf, s1)] st = st1"
    by (simp add: st1_def)
  have ob: "rsi_status (latest_rsi d1) = Overbought" "rsi_status (latest_rsi d2) = Overbought"
    using a by (simp_all add: rsi_status_def latest_rsi_def)
  show "status_after ((True, tf, s1) # map (\<lambda>s. (False, tf, s)) offs) st = status_after [(True, tf, s1)] st"
    by (simp add: status_after_disabled)
  show "run_effects ((True, tf, s1) # map (\<lambda>s. (False, tf, s)) offs @ [(True, tf, s2)]) st =
            fst (alert_effect True tf s1 st) # replicate (length offs) []
              @ [fst (alert_effect True tf s2 (status_after [(True, tf, s1)] st))]"
    by (simp add: run_effects_append run_effects_disabled status_after_disabled)
  show "toasts_for symbol (fst (alert_effect True tf s2 (status_after [(True, tf, s1)] st))) = []"
  proof (cases "tf \<in> set ALLOWED_TIMEFRAMES_FOR_ALERTS")
    case False
    then show ?thesis by (simp add: effect_toasts_skipped)
  next
    case True
    then have "previous_status st1 symbol = Overbought"
      unfolding st1_def using a ob by (simp add: previous_status_recorded)
    then have "visit_toasts s2 tf st1 symbol = []"
      using a ob by (simp add: visit_toasts_def)
    then have "toasts_for symbol (concat (map (visit_toasts s2 tf st1) (map fst s2))) = []"
      by (rule toasts_for_visits_none)
    moreover have "fst (alert_effect True tf s2 st1) = concat (map (visit_toasts s2 tf st1) (map fst s2))"
      using True unfolding alert_effect_visit by simp
    ultimately show ?thesis unfolding st1 by (simp only:)
  qed
qed

text \<open>
  The theorem with BTCUSDT at 75, then a disabled run at 50, then an enabled run at 80:
  the only toast is the one of the first run. A disabled run and a run at the timeframe
  5m do nothing.
\<close>

theorem alerts_guarded_witness:
  "alert_effect False ''15m'' [(''BTCUSDT'', series [75])] [] = ([], [])
   \<and> alert_effect True ''5m'' [(''BTCUSDT'', series [75])] [] = ([], [])
   \<and> run_effects [(True, ''1h'', [(''BTCUSDT'', series [75])]), (False, ''1h'', [(''BTCUSDT'', series [50])]),
         (True, ''1h'', [(''BTCUSDT'', series [80])])] []
       = [[\<lparr>toast_symbol = ''BTCUSDT'', toast_timeframe = ''1h'', toast_rsi = 75, toast_type = Overbought\<rparr>],
          [], []]"
proof -
  let ?s1 = "[(''BTCUSDT'', series [75])]" and ?sx = "[(''BTCUSDT'', series [50])]"
    and ?s2 = "[(''BTCUSDT'', series [80])]"
  have off: "alert_effect False ''15m'' ?s1 [] = ([], [])"
    using alerts_guarded [where areAlertsEnabled = False and timeframe = "''15m''" and snapshot = ?s1
        and lastAlertedRsiStatus = "[]"] by blast
  have "''5m'' \<notin> set ALLOWED_TIMEFRAMES_FOR_ALERTS"
    by (simp add: ALLOWED_TIMEFRAMES_FOR_ALERTS_def)
  then have short: "alert_effect True ''5m'' ?s1 [] = ([], [])"
    using alerts_guarded [where areAlertsEnabled = True and timeframe = "''5m''" and snapshot = ?s1
        and lastAlertedRsiStatus = "[]"] by blast
  have hyp: "map_of ?s1 ''BTCUSDT'' = Some (series [75]) \<and> rsi (series [75]) \<noteq> []
      \<and> rsi_value (last (rsi (series [75]))) \<ge> 70
      \<and> map_of ?s2 ''BTCUSDT'' = Some (series [80]) \<and> rsi (series [80]) \<noteq> []
      \<and> rsi_value (last (rsi (series [80]))) \<ge> 70"
    by (simp add: series_def)
  have first: "alert_effect True ''1h'' ?s1 [] =
      ([\<lparr>toast_symbol = ''BTCUSDT'', toast_timeframe = ''1h'', toast_rsi = 75, toast_type = Overbought\<rparr>],
       [(''BTCUSDT'', Overbought)])"
    by (simp add: alert_effect_def alert_symbol_def ALLOWED_TIMEFRAMES_FOR_ALERTS_def series_def
        overboughtThreshold_def oversoldThreshold_def)
  have last: "alert_effect True ''1h'' ?s2 [(''BTCUSDT'', Overbought)] = ([], [(''BTCUSDT'', Overbought)])"
    by (simp add: alert_effect_def alert_symbol_def ALLOWED_TIMEFRAMES_FOR_ALERTS_def series_def
        overboughtThreshold_def oversoldThreshold_def)
  have "run_effects ((True, ''1h'', ?s1) # map (\<lambda>s. (False, ''1h'', s)) [?sx] @ [(True, ''1h'', ?s2)]) [] =
      fst (alert_effect True ''1h'' ?s1 []) # replicate (length [?sx]) []
        @ [fst (alert_effect True ''1h'' ?s2 (status_after [(True, ''1h'', ?s1)] []))]"
    using alerts_guarded [where ?s1.0 = ?s1 and ?s2.0 = ?s2 and symbol = "''BTCUSDT''"
        and ?d1.0 = "series [75]" and ?d2.0 = "series [80]" and tf = "''1h''" and offs = "[?sx]"
        and st = "[]"] hyp by blast
  then have "run_effects [(True, ''1h'', ?s1), (False, ''1h'', ?sx), (True, ''1h'', ?s2)] [] =
      [[\<lparr>toast_symbol = ''BTCUSDT'', toast_timeframe = ''1h'', toast_rsi = 75, toast_type = Overbought\<rparr>],
          [], []]"
    by (simp add: first last)
  with off short show ?thesis by simp
qed

section \<open>Properties of the refresh cycle\<close>

lemma Promise_all_fulfilled:
  "\<forall>s \<in> set syms. f s = Inr (g s) \<Longrightarrow> Promise_all (map f syms) = Inr (map g syms)"
  by (induction syms) simp_all

lemma Promise_all_rejected:
  "\<exists>s \<in> set syms. \<exists>e. f s = Inl e \<Longrightarrow> \<exists>e. Promise_all (map f syms) = Inl e"
proof (induction syms)
  case Nil
  then show ?case by simp
next
  case (Cons s syms)
  show ?case
  proof (cases "f s")
    case (Inl e)
    then show ?thesis by simp
  next
    case (Inr v)
    with Cons.prems have "\<exists>s \<in> set syms. \<exists>e. f s = Inl e" by auto
    from Cons.IH [OF this] Inr show ?thesis by auto
  qed
qed

lemma map_of_fold_update:
  "map_of (fold (\<lambda>(symbol, data) newData. AList.update symbol data newData)
             (zip syms (map g syms)) al) k =
     (if k \<in> set syms then Some (g k) else map_of al k)"
  by (induction syms arbitrary: al) (auto simp: update_conv')

lemma distinct_fold_update:
  "distinct (map fst al) \<Longrightarrow>
   distinct (map fst (fold (\<lambda>(symbol, data) newData. AList.update symbol data newData) kvs al))"
  by (induction kvs arbitrary: al) (auto simp: distinct_update)

lemma map_of_newData_of:
  "map_of (newData_of syms (map g syms)) k = (if k \<in> set syms then Some (g k) else None)"
  by (simp add: newData_of_def map_of_fold_update)

lemma distinct_newData_of: "distinct (map fst (newData_of syms ds))"
  by (simp add: newData_of_def distinct_fold_update)

text \<open>
  \<open>fetchData\<close> is the call followed at once by the settling of the cycle it started.
\<close>

lemma fetchData_call_settle:
  "fetchData fetch userSymbols tf app =
     (if userSymbols = [] then fetchData_call userSymbols tf app
      else fetchData_settle fetch (length (in_flight app)) (fetchData_call userSymbols tf app))"
  by (auto simp: fetchData_def fetchData_call_def fetchData_settle_def Let_def split: sum.splits)

text \<open>
  Claim C1 says that a cycle in which one fetch fails stores the new data of the other
  symbols and keeps the entry of the failed one. In the code a rejected fetch rejects
  \<^verbatim>\<open>Promise.all\<close>, and the \<^verbatim>\<open>catch\<close> writes nothing: with BTCUSDT fetched and ETHUSDT
  failing, the entry of BTCUSDT after the cycle is still the old series, not the fetched
  one. Nor is an old entry kept when the service reports its failure as an empty series:
  \<^verbatim>\<open>newData\<close> starts empty, and the entry of ETHUSDT after the cycle is the empty
  series, not the old one.
\<close>

theorem one_failed_fetch_counterexample:
  "eth_down ''BTCUSDT'' ''15m'' = Inr (series [75])
   \<and> eth_down ''ETHUSDT'' ''15m'' = Inl NetworkError
   \<and> map_of (symbolsData example_app) ''BTCUSDT'' = Some (series [50])
   \<and> map_of (symbolsData (fetchData eth_down [''BTCUSDT'', ''ETHUSDT''] ''15m'' example_app)) ''BTCUSDT''
       = Some (series [50])
   \<and> map_of (symbolsData (fetchData eth_down [''BTCUSDT'', ''ETHUSDT''] ''15m'' example_app)) ''BTCUSDT''
       \<noteq> Some (series [75])
   \<and> map_of (symbolsData example_app) ''ETHUSDT'' = Some (series [40])
   \<and> map_of (symbolsData (fetchData eth_empty [''BTCUSDT'', ''ETHUSDT''] ''15m'' example_app)) ''ETHUSDT''
       = Some (series [])
   \<and> map_of (symbolsData (fetchData eth_empty [''BTCUSDT'', ''ETHUSDT''] ''15m'' example_app)) ''ETHUSDT''
       \<noteq> Some (series [40])"
  by (simp add: fetchData_def eth_down_def eth_empty_def example_app_def series_def newData_of_def)

text \<open>
  Claim C1 as the code has it. In a cycle over a non-empty list of symbols in which at
  least one fetch fails, the snapshot is left as it was, for every symbol, and the
  loading flag is cleared. In a cycle in which every fetch succeeds, the snapshot after
  the cycle maps each tracked symbol to its new data and holds no other symbol.
\<close>

theorem failed_fetch_keeps_whole_snapshot:
  "(userSymbols \<noteq> [] \<and> (\<exists>symbol \<in> set userSymbols. \<exists>e. fetch symbol tf = Inl e) \<longrightarrow>
      fetchData fetch userSymbols tf app = app\<lparr>loading := False\<rparr>)
   \<and> (userSymbols \<noteq> [] \<and> (\<forall>symbol \<in> set userSymbols. fetch symbol tf = Inr (new symbol)) \<longrightarrow>
      map_of (symbolsData (fetchData fetch userSymbols tf app)) =
        (\<lambda>symbol. if symbol \<in> set userSymbols then Some (new symbol) else None)
      \<and> distinct (map fst (symbolsData (fetchData fetch userSymbols tf app)))
      \<and> loading (fetchData fetch userSymbols tf app) = False
      \<and> in_flight (fetchData fetch userSymbols tf app) = in_flight app)"
proof (intro conjI impI)
  assume a: "userSymbols \<noteq> [] \<and> (\<exists>symbol \<in> set userSymbols. \<exists>e. fetch symbol tf = Inl e)"
  then obtain e where "Promise_all (map (\<lambda>symbol. fetch symbol tf) userSymbols) = Inl e"
    using Promise_all_rejected [of userSymbols "\<lambda>symbol. fetch symbol tf"] by blast
  with a show "fetchData fetch userSymbols tf app = app\<lparr>loading := False\<rparr>"
    by (simp add: fetchData_def)
next
  assume a: "userSymbols \<noteq> [] \<and> (\<forall>symbol \<in> set userSymbols. fetch symbol tf = Inr (new symbol))"
  then have p: "Promise_all (map (\<lambda>symbol. fetch symbol tf) userSymbols) = Inr (map new userSymbols)"
    using Promise_all_fulfilled [of userSymbols "\<lambda>symbol. fetch symbol tf" new] by blast
  then have r: "fetchData fetch userSymbols tf app =
      app\<lparr>symbolsData := newData_of userSymbols (map new userSymbols), loading := False\<rparr>"
    using a by (simp add: fetchData_def)
  show "map_of (symbolsData (fetchData fetch userSymbols tf app)) =
        (\<lambda>symbol. if symbol \<in> set userSymbols then Some (new symbol) else None)"
    unfolding r by (intro ext) (simp add: map_of_newData_of)
  show "distinct (map fst (symbolsData (fetchData fetch userSymbols tf app)))"
    unfolding r by (simp add: distinct_newData_of)
  show "loading (fetchData fetch userSymbols tf app) = False"
    unfolding r by simp
  show "in_flight (fetchData fetch userSymbols tf app) = in_flight app"
    unfolding r by simp
qed

text \<open>
  The theorem at two symbols: with ETHUSDT failing the state is the one before the
  cycle; with both fetched the snapshot holds the two new series.
\<close>

theorem failed_fetch_keeps_whole_snapshot_witness:
  "fetchData eth_down [''BTCUSDT'', ''ETHUSDT''] ''15m'' (example_app\<lparr>loading := True\<rparr>) = example_app
   \<and> map_of (symbolsData (fetchData all_up [''BTCUSDT'', ''ETHUSDT''] ''15m'' example_app)) =
       [''BTCUSDT'' \<mapsto> series [75], ''ETHUSDT'' \<mapsto> series [75]]"
proof -
  have fails: "[''BTCUSDT'', ''ETHUSDT''] \<noteq> []
      \<and> (\<exists>symbol \<in> set [''BTCUSDT'', ''ETHUSDT'']. \<exists>e. eth_down symbol ''15m'' = Inl e)"
    by (simp add: eth_down_def)
  have succeeds: "[''BTCUSDT'', ''ETHUSDT''] \<noteq> []
      \<and> (\<forall>symbol \<in> set [''BTCUSDT'', ''ETHUSDT'']. all_up symbol ''15m'' = Inr ((\<lambda>s. series [75]) symbol))"
    by (simp add: all_up_def)
  have "fetchData eth_down [''BTCUSDT'', ''ETHUSDT''] ''15m'' (example_app\<lparr>loading := True\<rparr>)
      = (example_app\<lparr>loading := True\<rparr>)\<lparr>loading := False\<rparr>"
    using failed_fetch_keeps_whole_snapshot [where userSymbols = "[''BTCUSDT'', ''ETHUSDT'']"
        and fetch = eth_down and tf = "''15m''" and app = "example_app\<lparr>loading := True\<rparr>",
        THEN conjunct1] fails by blast
  moreover have "map_of (symbolsData (fetchData all_up [''BTCUSDT'', ''ETHUSDT''] ''15m'' example_app)) =
        (\<lambda>symbol. if symbol \<in> set [''BTCUSDT'', ''ETHUSDT''] then Some (series [75]) else None)"
    using failed_fetch_keeps_whole_snapshot [where userSymbols = "[''BTCUSDT'', ''ETHUSDT'']"
        and fetch = all_up and tf = "''15m''" and new = "\<lambda>s. series [75]" and app = example_app,
        THEN conjunct2] succeeds by blast
  ultimately show ?thesis
    by (auto simp: example_app_def fun_upd_def)
qed

text \<open>
  Claim C10. A refresh with an empty list of symbols replaces the snapshot by the empty
  mapping, so that no symbol has data any more, and clears the loading flag. It does not
  depend on the fetch function, and the call leaves no cycle in flight.
\<close>

theorem empty_symbol_list_clears_snapshot:
  "fetchData fetch [] tf app = app\<lparr>symbolsData := [], loading := False\<rparr>
   \<and> fetchData_call [] tf app = app\<lparr>symbolsData := [], loading := False\<rparr>
   \<and> map_of (symbolsData (fetchData fetch [] tf app)) symbol = None
   \<and> loading (fetchData fetch [] tf app) = False
   \<and> in_flight (fetchData_call [] tf app) = in_flight app"
  by (simp add: fetchData_def fetchData_call_def)

text \<open>The theorem at a snapshot of two symbols: BTCUSDT had data before and has none after.\<close>

theorem empty_symbol_list_clears_snapshot_witness:
  "fetchData all_up [] ''15m'' example_app = \<lparr>symbolsData = [], loading = False, in_flight = []\<rparr>
   \<and> map_of (symbolsData example_app) ''BTCUSDT'' = Some (series [50])
   \<and> map_of (symbolsData (fetchData all_up [] ''15m'' example_app)) ''BTCUSDT'' = None"
  using empty_symbol_list_clears_snapshot [of all_up "''15m''" example_app "''BTCUSDT''"]
  by (simp add: example_app_def)

text \<open>
  Claim C6 says that a call of \<^verbatim>\<open>fetchData\<close> while a cycle is pending does nothing. The
  code has no such guard: after one call a cycle is in flight, and a second call changes
  the state and leaves two cycles in flight.
\<close>

theorem second_cycle_starts_counterexample:
  "in_flight (fetchData_call [''BTCUSDT''] ''15m'' example_app)
     = [\<lparr>cycle_symbols = [''BTCUSDT''], cycle_timeframe = ''15m''\<rparr>]
   \<and> fetchData_call [''BTCUSDT''] ''15m'' (fetchData_call [''BTCUSDT''] ''15m'' example_app)
       \<noteq> fetchData_call [''BTCUSDT''] ''15m'' example_app
   \<and> length (in_flight (fetchData_call [''BTCUSDT''] ''15m''
        (fetchData_call [''BTCUSDT''] ''15m'' example_app))) = 2"
  by (simp add: fetchData_call_def example_app_def)

text \<open>
  Claim C6 as the code has it. A call with a non-empty list of symbols always starts a
  cycle, also while others are pending, and does not touch the snapshot. When a pending
  cycle settles it leaves the list of pending cycles, the loading flag is cleared, and
  the snapshot is written at most once and as a whole: it is unchanged if a fetch of the
  cycle failed, and it maps exactly the symbols of the cycle to their new data if all
  succeeded.
\<close>

theorem cycles_overlap_snapshot_whole:
  "(userSymbols \<noteq> [] \<longrightarrow>
      in_flight (fetchData_call userSymbols tf app) =
        in_flight app @ [\<lparr>cycle_symbols = userSymbols, cycle_timeframe = tf\<rparr>]
      \<and> symbolsData (fetchData_call userSymbols tf app) = symbolsData app)
   \<and> (k < length (in_flight app) \<longrightarrow>
      in_flight (fetchData_settle fetch k app) = take k (in_flight app) @ drop (Suc k) (in_flight app)
      \<and> loading (fetchData_settle fetch k app) = False
      \<and> ((\<exists>symbol \<in> set (cycle_symbols (in_flight app ! k)).
             \<exists>e. fetch symbol (cycle_timeframe (in_flight app ! k)) = Inl e) \<longrightarrow>
           symbolsData (fetchData_settle fetch k app) = symbolsData app)
      \<and> ((\<forall>symbol \<in> set (cycle_symbols (in_flight app ! k)).
             fetch symbol (cycle_timeframe (in_flight app ! k)) = Inr (new symbol)) \<longrightarrow>
           map_of (symbolsData (fetchData_settle fetch k app)) =
             (\<lambda>symbol. if symbol \<in> set (cycle_symbols (in_flight app ! k))
                        then Some (new symbol) else None)))"
proof (intro conjI impI)
  assume "userSymbols \<noteq> []"
  then show "in_flight (fetchData_call userSymbols tf app) =
        in_flight app @ [\<lparr>cycle_symbols = userSymbols, cycle_timeframe = tf\<rparr>]"
    and "symbolsData (fetchData_call userSymbols tf app) = symbolsData app"
    by (simp_all add: fetchData_call_def)
next
  assume k: "k < length (in_flight app)"
  then show "in_flight (fetchData_settle fetch k app) = take k (in_flight app) @ drop (Suc k) (in_flight app)"
    by (simp add: fetchData_settle_def Let_def split: sum.splits)
  from k show "loading (fetchData_settle fetch k app) = False"
    by (simp add: fetchData_settle_def Let_def split: sum.splits)
  let ?syms = "cycle_symbols (in_flight app ! k)" and ?tf = "cycle_timeframe (in_flight app ! k)"
  show "symbolsData (fetchData_settle fetch k app) = symbolsData app"
    if rejected: "\<exists>symbol \<in> set ?syms. \<exists>e. fetch symbol ?tf = Inl e"
  proof -
    obtain e where "Promise_all (map (\<lambda>symbol. fetch symbol ?tf) ?syms) = Inl e"
      using Promise_all_rejected [of ?syms "\<lambda>symbol. fetch symbol ?tf"] rejected by blast
    with k show ?thesis by (simp add: fetchData_settle_def Let_def)
  qed
  show "map_of (symbolsData (fetchData_settle fetch k app)) =
      (\<lambda>symbol. if symbol \<in> set ?syms then Some (new symbol) else None)"
    if "\<forall>symbol \<in> set ?syms. fetch symbol ?tf = Inr (new symbol)"
  proof -
    have "Promise_all (map (\<lambda>symbol. fetch symbol ?tf) ?syms) = Inr (map new ?syms)"
      using Promise_all_fulfilled [of ?syms "\<lambda>symbol. fetch symbol ?tf" new] that by blast
    with k have "symbolsData (fetchData_settle fetch k app) = newData_of ?syms (map new ?syms)"
      by (simp add: fetchData_settle_def Let_def)
    then show ?thesis by (intro ext) (simp add: map_of_newData_of)
  qed
qed

text \<open>
  The theorem at two overlapping cycles: both are in flight and the snapshot is the old
  one; the second one settling writes its one symbol, the first one settling with a
  failed fetch writes nothing.
\<close>

theorem cycles_overlap_snapshot_whole_witness:
  "in_flight (fetchData_call [''BTCUSDT''] ''1h'' (fetchData_call [''BTCUSDT'', ''ETHUSDT''] ''15m'' example_app))
     = [\<lparr>cycle_symbols = [''BTCUSDT'', ''ETHUSDT''], cycle_timeframe = ''15m''\<rparr>,
        \<lparr>cycle_symbols = [''BTCUSDT''], cycle_timeframe = ''1h''\<rparr>]
   \<and> symbolsData (fetchData_call [''BTCUSDT''] ''1h'' (fetchData_call [''BTCUSDT'', ''ETHUSDT''] ''15m'' example_app))
     = symbolsData example_app
   \<and> map_of (symbolsData (fetchData_settle all_up 1
        (fetchData_call [''BTCUSDT''] ''1h'' (fetchData_call [''BTCUSDT'', ''ETHUSDT''] ''15m'' example_app))))
     = [''BTCUSDT'' \<mapsto> series [75]]
   \<and> symbolsData (fetchData_settle eth_down 0
        (fetchData_call [''BTCUSDT''] ''1h'' (fetchData_call [''BTCUSDT'', ''ETHUSDT''] ''15m'' example_app)))
     = symbolsData example_app"
proof -
  define app1 where "app1 = fetchData_call [''BTCUSDT'', ''ETHUSDT''] ''15m'' example_app"
  define app2 where "app2 = fetchData_call [''BTCUSDT''] ''1h'' app1"
  have ne: "[''BTCUSDT'', ''ETHUSDT''] \<noteq> []" "[''BTCUSDT''] \<noteq> []" by simp_all
  have f1: "in_flight app1 = [\<lparr>cycle_symbols = [''BTCUSDT'', ''ETHUSDT''], cycle_timeframe = ''15m''\<rparr>]"
    and d1: "symbolsData app1 = symbolsData example_app"
    using cycles_overlap_snapshot_whole [where userSymbols = "[''BTCUSDT'', ''ETHUSDT'']" and tf = "''15m''"
        and app = example_app, THEN conjunct1] ne(1)
    by (simp_all add: app1_def example_app_def)
  have f2: "in_flight app2 = [\<lparr>cycle_symbols = [''BTCUSDT'', ''ETHUSDT''], cycle_timeframe = ''15m''\<rparr>,
        \<lparr>cycle_symbols = [''BTCUSDT''], cycle_timeframe = ''1h''\<rparr>]"
    and d2: "symbolsData app2 = symbolsData example_app"
    using cycles_overlap_snapshot_whole [where userSymbols = "[''BTCUSDT'']" and tf = "''1h''"
        and app = app1, THEN conjunct1] ne(2) f1 d1
    by (simp_all add: app2_def)
  have k: "1 < length (in_flight app2)" "0 < length (in_flight app2)"
    by (simp_all add: f2)
  have up: "\<forall>symbol \<in> set (cycle_symbols (in_flight app2 ! 1)).
      all_up symbol (cycle_timeframe (in_flight app2 ! 1)) = Inr ((\<lambda>s. series [75]) symbol)"
    by (simp add: f2 all_up_def)
  have down: "\<exists>symbol \<in> set (cycle_symbols (in_flight app2 ! 0)).
      \<exists>e. eth_down symbol (cycle_timeframe (in_flight app2 ! 0)) = Inl e"
    by (simp add: f2 eth_down_def)
  have s1: "map_of (symbolsData (fetchData_settle all_up 1 app2)) =
      (\<lambda>symbol. if symbol \<in> set (cycle_symbols (in_flight app2 ! 1)) then Some (series [75]) else None)"
    using cycles_overlap_snapshot_whole [where k = 1 and app = app2 and fetch = all_up
        and new = "\<lambda>s. series [75]", THEN conjunct2] k(1) up by blast
  have s0: "symbolsData (fetchData_settle eth_down 0 app2) = symbolsData app2"
    using cycles_overlap_snapshot_whole [where k = 0 and app = app2 and fetch = eth_down,
        THEN conjunct2] k(2) down by blast
  have "map_of (symbolsData (fetchData_settle all_up 1 app2)) = [''BTCUSDT'' \<mapsto> series [75]]"
    unfolding s1 by (auto simp: f2 fun_upd_def)
  with f2 d2 s0 show ?thesis
    by (simp add: app2_def app1_def)
qed

section \<open>Properties of the initial values\<close>

text \<open>
  Claim C8. For each of the four stored values, when the key is absent from the storage
  or the stored string is one \<^verbatim>\<open>JSON.parse\<close> throws on, the initial value is the
  default: \<^verbatim>\<open>DEFAULT_SYMBOLS\<close> for the list of all symbols, the list of all symbols
  for the tracked symbols, the empty list for the favorites, false for the alert flag.
  The initializers are total: the exception is caught in each.
\<close>

theorem malformed_or_absent_storage_defaults:
  "(localStorage ''crypto-all-symbols'' = None
      \<or> (\<exists>saved. localStorage ''crypto-all-symbols'' = Some saved \<and> JSON_parse saved = None) \<longrightarrow>
      allSymbols_init JSON_parse DEFAULT_SYMBOLS localStorage = DEFAULT_SYMBOLS)
   \<and> (localStorage ''crypto-user-symbols'' = None
      \<or> (\<exists>saved. localStorage ''crypto-user-symbols'' = Some saved \<and> JSON_parse saved = None) \<longrightarrow>
      userSymbols_init JSON_parse allSymbols localStorage = allSymbols)
   \<and> (localStorage ''crypto-favorites'' = None
      \<or> (\<exists>saved. localStorage ''crypto-favorites'' = Some saved \<and> JSON_parse saved = None) \<longrightarrow>
      favorites_init JSON_parse localStorage = [])
   \<and> (localStorage ''crypto-alerts-enabled'' = None
      \<or> (\<exists>saved. localStorage ''crypto-alerts-enabled'' = Some saved \<and> JSON_parse_bool saved = None) \<longrightarrow>
      areAlertsEnabled_init JSON_parse_bool localStorage = False)"
  by (auto simp: allSymbols_init_def userSymbols_init_def favorites_init_def areAlertsEnabled_init_def)

text \<open>
  The theorem at a storage that holds a truncated array for one key and nothing for the
  others, and at storages with a lone brace and a misspelt boolean.
\<close>

theorem malformed_or_absent_storage_defaults_witness:
  "allSymbols_init json_of_example [''BTCUSDT'', ''ETHUSDT''] [''crypto-all-symbols'' \<mapsto> ''[BTCUSDT''] =
     [''BTCUSDT'', ''ETHUSDT'']
   \<and> userSymbols_init json_of_example [''BTCUSDT'', ''ETHUSDT''] [''crypto-all-symbols'' \<mapsto> ''[BTCUSDT''] =
     [''BTCUSDT'', ''ETHUSDT'']
   \<and> favorites_init json_of_example [''crypto-favorites'' \<mapsto> ''{''] = []
   \<and> areAlertsEnabled_init bool_of_example [''crypto-alerts-enabled'' \<mapsto> ''tru''] = False
   \<and> areAlertsEnabled_init bool_of_example Map.empty = False"
proof -
  let ?ls = "[''crypto-all-symbols'' \<mapsto> ''[BTCUSDT'']"
  have bad: "\<exists>saved. ?ls ''crypto-all-symbols'' = Some saved \<and> json_of_example saved = None"
    by (simp add: json_of_example_def)
  have absent: "?ls ''crypto-user-symbols'' = None" by simp
  have fav: "\<exists>saved. [''crypto-favorites'' \<mapsto> ''{''] ''crypto-favorites'' = Some saved
      \<and> json_of_example saved = None"
    by (simp add: json_of_example_def)
  have flag: "\<exists>saved. [''crypto-alerts-enabled'' \<mapsto> ''tru''] ''crypto-alerts-enabled'' = Some saved
      \<and> bool_of_example saved = None"
    by (simp add: bool_of_example_def)
  have none: "(Map.empty :: string \<rightharpoonup> string) ''crypto-alerts-enabled'' = None" by simp
  have "allSymbols_init json_of_example [''BTCUSDT'', ''ETHUSDT''] ?ls = [''BTCUSDT'', ''ETHUSDT'']"
    using malformed_or_absent_storage_defaults [where localStorage = ?ls and JSON_parse = json_of_example
        and DEFAULT_SYMBOLS = "[''BTCUSDT'', ''ETHUSDT'']", THEN conjunct1] bad by blast
  moreover have "userSymbols_init json_of_example [''BTCUSDT'', ''ETHUSDT''] ?ls = [''BTCUSDT'', ''ETHUSDT'']"
    using malformed_or_absent_storage_defaults [where localStorage = ?ls and JSON_parse = json_of_example
        and allSymbols = "[''BTCUSDT'', ''ETHUSDT'']", THEN conjunct2, THEN conjunct1] absent by blast
  moreover have "favorites_init json_of_example [''crypto-favorites'' \<mapsto> ''{''] = []"
    using malformed_or_absent_storage_defaults [where localStorage = "[''crypto-favorites'' \<mapsto> ''{'']"
        and JSON_parse = json_of_example, THEN conjunct2, THEN conjunct2, THEN conjunct1] fav by blast
  moreover have "areAlertsEnabled_init bool_of_example [''crypto-alerts-enabled'' \<mapsto> ''tru''] = False"
    using malformed_or_absent_storage_defaults [where localStorage = "[''crypto-alerts-enabled'' \<mapsto> ''tru'']"
        and JSON_parse_bool = bool_of_example, THEN conjunct2, THEN conjunct2, THEN conjunct2] flag by blast
  moreover have "areAlertsEnabled_init bool_of_example Map.empty = False"
    using malformed_or_absent_storage_defaults [where localStorage = Map.empty
        and JSON_parse_bool = bool_of_example, THEN conjunct2, THEN conjunct2, THEN conjunct2] none by blast
  ultimately show ?thesis by simp
qed

end
